theory Spec2Isabelle
  imports Main "HOL-Library.Word"
begin

section \<open>Python text\<close>

text \<open>
  A Python 3 \<open>str\<close> is a sequence of Unicode code points; a code point is a natural
  number here, so that \<open>str.strip()\<close> can be given its full whitespace table.
  \<open>u\<close> turns an ASCII literal into such a sequence.
\<close>

type_synonym pychar = nat
type_synonym pystr = "pychar list"
type_synonym byte = "8 word"

definition u :: "string \<Rightarrow> pystr" where
  "u s = map of_char s"

section \<open>pa\_record.py: the recording thread\<close>

subsection \<open>Arguments (\<open>RecordingThread.__init__\<close>)\<close>

datatype pa_format =
  paFloat32 | paInt32 | paInt24 | paInt16 | paInt8 | paUInt8 | paCustomFormat

datatype error =
  SystemExit int      \<comment> \<open>argparse's \<open>parser.error\<close>: usage message, exit status 2\<close>
  | ValueError
  | PortAudioError    \<comment> \<open>raised by \<open>p.open\<close> or \<open>stream.read\<close>\<close>
  | WaveError         \<comment> \<open>\<open>wave.Error\<close> of the setters of \<open>Wave_write\<close>\<close>
  | IOError           \<comment> \<open>\<open>wave.open\<close> cannot open the output path\<close>

text \<open>The dictionary \<open>formats\<close> of \<open>__init__\<close>, in the order it is written.\<close>

definition formats :: "(pystr \<times> pa_format) list" where
  "formats =
    [(u ''paFloat32'', paFloat32),
     (u ''paInt32'', paInt32),
     (u ''paInt24'', paInt24),
     (u ''paInt16'', paInt16),
     (u ''paInt8'', paInt8),
     (u ''paUInt8'', paUInt8),
     (u ''paCustomFormat'', paCustomFormat)]"

text \<open>\<open>pa_sample_format\<close>: \<open>ValueError\<close> when the name is not a key of \<open>formats\<close>.\<close>

definition pa_sample_format :: "pystr \<Rightarrow> error + pa_format" where
  "pa_sample_format s =
     (case map_of formats s of None \<Rightarrow> Inl ValueError | Some f \<Rightarrow> Inr f)"

record args =
  output_path :: pystr               \<comment> \<open>\<open>args.output\<close>\<close>
  rate :: int
  pa_format :: pa_format
  device :: int
  channels :: int
  chunk :: int

text \<open>
  What argparse hands to the converters of \<open>__init__\<close>: for each option the text given
  on the command line, or \<open>None\<close> when the option is absent. The options of
  \<open>type=int\<close> go through Python's builtin \<open>int\<close>, which is not code of this
  program: its answer is part of the input, \<open>IntText n\<close> when \<open>int(text)\<close> returns
  \<open>n\<close> and \<open>NotInt\<close> when it raises \<open>ValueError\<close>. Cutting the command line into
  options and values is argparse's own work and has happened before.
\<close>

datatype int_text = IntText int | NotInt

record cli =
  opt_output :: "pystr option"
  opt_rate :: "int_text option"
  opt_format :: "pystr option"
  opt_device :: "int_text option"
  opt_channels :: "int_text option"
  opt_chunk :: "int_text option"

text \<open>
  An option of \<open>type=int\<close> with an integer default: the default is used as it is,
  a given text is converted, and a failed conversion is argparse's error (exit status 2).
\<close>

definition conv_int :: "int \<Rightarrow> int_text option \<Rightarrow> error + int" where
  "conv_int dflt v =
     (case v of
        None \<Rightarrow> Inr dflt
      | Some (IntText n) \<Rightarrow> Inr n
      | Some NotInt \<Rightarrow> Inl (SystemExit 2))"

text \<open>
  \<open>--format\<close>: the default \<open>"paUInt8"\<close> is a string, so argparse passes it through
  \<open>pa_sample_format\<close> like a given name; a \<open>ValueError\<close> of the converter becomes
  argparse's error.
\<close>

definition conv_format :: "pystr option \<Rightarrow> error + pa_format" where
  "conv_format v =
     (case pa_sample_format (case v of None \<Rightarrow> u ''paUInt8'' | Some s \<Rightarrow> s) of
        Inl _ \<Rightarrow> Inl (SystemExit 2)
      | Inr f \<Rightarrow> Inr f)"

definition parse_args :: "cli \<Rightarrow> error + args" where
  "parse_args c =
     (case conv_int 8000 (opt_rate c) of Inl e \<Rightarrow> Inl e | Inr r \<Rightarrow>
     (case conv_format (opt_format c) of Inl e \<Rightarrow> Inl e | Inr f \<Rightarrow>
     (case conv_int (- 1) (opt_device c) of Inl e \<Rightarrow> Inl e | Inr d \<Rightarrow>
     (case conv_int 1 (opt_channels c) of Inl e \<Rightarrow> Inl e | Inr ch \<Rightarrow>
     (case conv_int 1024 (opt_chunk c) of Inl e \<Rightarrow> Inl e | Inr ck \<Rightarrow>
        Inr \<lparr>output_path = (case opt_output c of None \<Rightarrow> u ''output.wav'' | Some p \<Rightarrow> p),
             rate = r, pa_format = f, device = d, channels = ch, chunk = ck\<rparr>)))))"

subsection \<open>The thread object and the statements of \<open>run\<close>\<close>

text \<open>
  The worker's program counter names the line of \<open>pa_record.py\<close> it executes next.
  Line 106 is two calls, \<open>stream.read\<close> and then \<open>wf.writeframes\<close> on what was read:
  between them the chunk is in flight.
\<close>

datatype pc =
  NotStarted
  | L79 | L89 | L90 | L98 | L99 | L100 | L101
  | L104 | L105 | L106_read | L106_write "byte list" | L107
  | L111 | L112 | L113 | L114
  | Finished
  | Raised error

record stream_args =
  sa_format :: pa_format
  sa_channels :: int
  sa_rate :: int
  sa_input_device_index :: "int option"
  sa_frames_per_buffer :: int

record recording_thread =
  args :: args
  recording :: bool                       \<comment> \<open>\<open>self._recording\<close>\<close>
  pc :: pc
  DEVICE_INDEX :: "int option"            \<comment> \<open>the local variable of \<open>run\<close>\<close>
  p_created :: bool                       \<comment> \<open>\<open>p = PyAudio()\<close> was executed\<close>
  stream_opened :: "stream_args option"   \<comment> \<open>the arguments \<open>p.open\<close> returned a stream for\<close>
  wf_opened :: "pystr option"             \<comment> \<open>the path \<open>wave.open\<close> opened\<close>
  wf_nchannels :: "int option"
  wf_sampwidth :: "int option"
  wf_framerate :: "int option"
  wf_data :: "byte list"                  \<comment> \<open>the bytes given to \<open>wf.writeframes\<close> so far\<close>
  reads :: nat                            \<comment> \<open>calls of \<open>stream.read\<close> that have returned\<close>
  stop_stream_calls :: nat
  stream_close_calls :: nat
  wf_close_calls :: nat
  terminate_calls :: nat

text \<open>
  PyAudio, PortAudio and the \<open>wave\<close> module are libraries, not code of this program.
  What they answer is a parameter: whether \<open>p.open\<close> and \<open>wave.open\<close> raise, the
  sample size of a format (\<open>None\<close> when \<open>get_sample_size\<close> raises \<open>ValueError\<close>), and
  what the \<open>k\<close>-th call of \<open>stream.read\<close> returns (\<open>None\<close> when it raises).
  \<open>PyAudio()\<close>, \<open>writeframes\<close> and the four closing calls are taken not to raise.
\<close>

record env =
  pa_open_raises :: "stream_args \<Rightarrow> bool"
  wave_open_raises :: "pystr \<Rightarrow> bool"
  get_sample_size :: "pa_format \<Rightarrow> int option"
  dev_read :: "nat \<Rightarrow> byte list option"

text \<open>\<open>__init__\<close>: parse the arguments, set \<open>_recording = False\<close>; nothing is opened.\<close>

definition init :: "cli \<Rightarrow> error + recording_thread" where
  "init c =
     (case parse_args c of
        Inl e \<Rightarrow> Inl e
      | Inr a \<Rightarrow>
          Inr \<lparr>args = a, recording = False, pc = NotStarted, DEVICE_INDEX = None,
               p_created = False, stream_opened = None, wf_opened = None,
               wf_nchannels = None, wf_sampwidth = None, wf_framerate = None,
               wf_data = [], reads = 0, stop_stream_calls = 0, stream_close_calls = 0,
               wf_close_calls = 0, terminate_calls = 0\<rparr>)"

definition stop_recording :: "recording_thread \<Rightarrow> recording_thread" where
  "stop_recording s = s\<lparr>recording := False\<rparr>"

text \<open>\<open>t.start()\<close>: the worker begins \<open>run\<close>. (\<open>record\<close> calls it once.)\<close>

definition start :: "recording_thread \<Rightarrow> recording_thread" where
  "start s = (if pc s = NotStarted then s\<lparr>pc := L79\<rparr> else s)"

text \<open>
  One statement of \<open>run\<close>. The setters of \<open>Wave_write\<close> raise \<open>wave.Error\<close> for a
  channel count below 1, a sample width outside 1..4 and a frame rate of 0 or less.
  An exception ends the thread where it is raised: \<open>run\<close> has no handler.
\<close>

definition wstep :: "env \<Rightarrow> recording_thread \<Rightarrow> recording_thread" where
  "wstep e s =
     (case pc s of
        NotStarted \<Rightarrow> s
      | L79 \<Rightarrow>
          s\<lparr>DEVICE_INDEX := (if device (args s) < 0 then None else Some (device (args s))),
            pc := L89\<rparr>
      | L89 \<Rightarrow> s\<lparr>p_created := True, pc := L90\<rparr>
      | L90 \<Rightarrow>
          (let a = \<lparr>sa_format = pa_format (args s), sa_channels = channels (args s),
                    sa_rate = rate (args s), sa_input_device_index = DEVICE_INDEX s,
                    sa_frames_per_buffer = chunk (args s)\<rparr>
           in if pa_open_raises e a then s\<lparr>pc := Raised PortAudioError\<rparr>
              else s\<lparr>stream_opened := Some a, pc := L98\<rparr>)
      | L98 \<Rightarrow>
          (if wave_open_raises e (output_path (args s)) then s\<lparr>pc := Raised IOError\<rparr>
           else s\<lparr>wf_opened := Some (output_path (args s)), pc := L99\<rparr>)
      | L99 \<Rightarrow>
          (if channels (args s) < 1 then s\<lparr>pc := Raised WaveError\<rparr>
           else s\<lparr>wf_nchannels := Some (channels (args s)), pc := L100\<rparr>)
      | L100 \<Rightarrow>
          (case get_sample_size e (pa_format (args s)) of
             None \<Rightarrow> s\<lparr>pc := Raised ValueError\<rparr>
           | Some w \<Rightarrow>
               if w < 1 \<or> w > 4 then s\<lparr>pc := Raised WaveError\<rparr>
               else s\<lparr>wf_sampwidth := Some w, pc := L101\<rparr>)
      | L101 \<Rightarrow>
          (if rate (args s) \<le> 0 then s\<lparr>pc := Raised WaveError\<rparr>
           else s\<lparr>wf_framerate := Some (rate (args s)), pc := L104\<rparr>)
      | L104 \<Rightarrow> s\<lparr>recording := True, pc := L105\<rparr>
      | L105 \<Rightarrow> (if recording s then s\<lparr>pc := L106_read\<rparr> else s\<lparr>pc := L111\<rparr>)
      | L106_read \<Rightarrow>
          (case dev_read e (reads s) of
             None \<Rightarrow> s\<lparr>pc := Raised PortAudioError\<rparr>
           | Some b \<Rightarrow> s\<lparr>reads := Suc (reads s), pc := L106_write b\<rparr>)
      | L106_write b \<Rightarrow> s\<lparr>wf_data := wf_data s @ b, pc := L107\<rparr>
      | L107 \<Rightarrow> s\<lparr>pc := L105\<rparr>
      | L111 \<Rightarrow> s\<lparr>stop_stream_calls := Suc (stop_stream_calls s), pc := L112\<rparr>
      | L112 \<Rightarrow> s\<lparr>stream_close_calls := Suc (stream_close_calls s), pc := L113\<rparr>
      | L113 \<Rightarrow> s\<lparr>wf_close_calls := Suc (wf_close_calls s), pc := L114\<rparr>
      | L114 \<Rightarrow> s\<lparr>terminate_calls := Suc (terminate_calls s), pc := Finished\<rparr>
      | Finished \<Rightarrow> s
      | Raised x \<Rightarrow> s)"

subsection \<open>The two threads\<close>

text \<open>
  The caller (\<open>record\<close>) starts the thread and later calls \<open>stop_recording\<close>; the worker
  executes \<open>run\<close> one statement at a time. A schedule is the order in which the
  statements of the two threads happen.
\<close>

datatype event = Start | Worker | Stop

definition step :: "env \<Rightarrow> event \<Rightarrow> recording_thread \<Rightarrow> recording_thread" where
  "step e ev s = (case ev of Start \<Rightarrow> start s | Worker \<Rightarrow> wstep e s | Stop \<Rightarrow> stop_recording s)"

fun exec :: "env \<Rightarrow> event list \<Rightarrow> recording_thread \<Rightarrow> recording_thread" where
  "exec e [] s = s"
| "exec e (ev # evs) s = exec e evs (step e ev s)"

section \<open>make\_transcript\_files.py: the corpus converter\<close>

subsection \<open>String methods and path functions the script calls\<close>

text \<open>
  \<open>str.strip()\<close> without an argument removes, at both ends, the characters that
  \<open>str.isspace\<close> accepts: the code points of Unicode's bidirectional classes WS, B, S
  and of category Zs.
\<close>

definition is_space :: "pychar \<Rightarrow> bool" where
  "is_space c =
     ((0x09 \<le> c \<and> c \<le> 0x0D) \<or> (0x1C \<le> c \<and> c \<le> 0x20) \<or> c = 0x85 \<or> c = 0xA0
      \<or> c = 0x1680 \<or> (0x2000 \<le> c \<and> c \<le> 0x200A) \<or> c = 0x2028 \<or> c = 0x2029
      \<or> c = 0x202F \<or> c = 0x205F \<or> c = 0x3000)"

definition str_strip :: "pystr \<Rightarrow> pystr" where
  "str_strip s = rev (dropWhile is_space (rev (dropWhile is_space s)))"

text \<open>\<open>s.split(sep)\<close> for a separator of one character: never an empty list.\<close>

fun str_split :: "pychar \<Rightarrow> pystr \<Rightarrow> pystr list" where
  "str_split sep [] = [[]]"
| "str_split sep (c # cs) =
     (if c = sep then [] # str_split sep cs
      else (case str_split sep cs of [] \<Rightarrow> [[c]] | x # xs \<Rightarrow> (c # x) # xs))"

text \<open>\<open>xs[0]\<close>: \<open>IndexError\<close> on an empty list.\<close>

definition item0 :: "'a list \<Rightarrow> 'a option" where
  "item0 xs = (case xs of [] \<Rightarrow> None | x # _ \<Rightarrow> Some x)"

text \<open>
  The input file is open in text mode with universal newlines: \<open>"\r\n"\<close> and a lone
  \<open>"\r"\<close> are read as \<open>"\n"\<close>. \<open>readlines\<close> cuts the text after each \<open>"\n"\<close>
  and keeps it at the end of the line.
\<close>

fun universal_newlines :: "pystr \<Rightarrow> pystr" where
  "universal_newlines [] = []"
| "universal_newlines [c] = [if c = 13 then 10 else c]"
| "universal_newlines (c # d # cs) =
     (if c = 13 \<and> d = 10 then 10 # universal_newlines cs
      else if c = 13 then 10 # universal_newlines (d # cs)
      else c # universal_newlines (d # cs))"

fun cut_lines :: "pystr \<Rightarrow> pystr list" where
  "cut_lines [] = []"
| "cut_lines (c # cs) =
     (if c = 10 then [10] # cut_lines cs
      else (case cut_lines cs of [] \<Rightarrow> [[c]] | l # ls \<Rightarrow> (c # l) # ls))"

definition readlines :: "pystr \<Rightarrow> pystr list" where
  "readlines text = cut_lines (universal_newlines text)"

text \<open>\<open>os.path.basename\<close>, the root part of \<open>os.path.splitext\<close> (a leading run of dots
  of the file name is not an extension) and \<open>os.path.join\<close> of two parts, on POSIX.\<close>

definition basename :: "pystr \<Rightarrow> pystr" where
  "basename p = rev (takeWhile (\<lambda>c. c \<noteq> 47) (rev p))"

definition splitext_root :: "pystr \<Rightarrow> pystr" where
  "splitext_root p =
     (let r = rev p;
          after_dot = takeWhile (\<lambda>c. c \<noteq> 46) r;
          upto_dot = dropWhile (\<lambda>c. c \<noteq> 46) r
      in if upto_dot = [] \<or> 47 \<in> set after_dot then p
         else if (\<exists>c \<in> set (takeWhile (\<lambda>c. c \<noteq> 47) (tl upto_dot)). c \<noteq> 46)
              then rev (tl upto_dot) else p)"

definition path_join :: "pystr \<Rightarrow> pystr \<Rightarrow> pystr" where
  "path_join a b =
     (if b \<noteq> [] \<and> hd b = 47 then b
      else if a = [] \<or> last a = 47 then a @ b
      else a @ [47] @ b)"

text \<open>\<open>"%04d" % n\<close>: the decimal digits, a sign before them when \<open>n\<close> is negative,
  and zeros in between up to a width of four.\<close>

fun digits :: "nat \<Rightarrow> pystr" where
  "digits n = (if n < 10 then [48 + n] else digits (n div 10) @ [48 + n mod 10])"

declare digits.simps [simp del]

definition fmt_04d :: "int \<Rightarrow> pystr" where
  "fmt_04d n =
     (let ds = digits (nat \<bar>n\<bar>)
      in if n < 0 then 45 # replicate (3 - length ds) 48 @ ds
         else replicate (4 - length ds) 48 @ ds)"

subsection \<open>Files\<close>

text \<open>
  The file system as far as the script touches it: what is at a path (paths are told
  apart by their spelling), which file objects are open, and what the script printed
  (the usage line and the messages of \<open>print_err\<close>). Whether \<open>os.mkdir\<close>, \<open>open\<close> and \<open>write\<close> raise is the operating system's
  answer, a parameter. \<open>close\<close> is taken not to raise.
\<close>

datatype node = Dir | File pystr

datatype diag =
  Usage                        \<comment> \<open>\<open>parser.print_usage()\<close>\<close>
  | NotADirectory pystr        \<comment> \<open>"Expected directory path '...' is not a directory."\<close>
  | FailedToCreate pystr       \<comment> \<open>"Failed to create output directory '...': ..."\<close>
  | CouldntOpen pystr pystr    \<comment> \<open>"Couldn't open '...' with mode '...': ..."\<close>
  | CouldntWrite               \<comment> \<open>"Couldn't write to transcription file: ..."\<close>
  | UnableToRead pystr         \<comment> \<open>"Unable to read '...': ..."\<close>

record world =
  nodes :: "pystr \<Rightarrow> node option"
  handles :: "pystr list"      \<comment> \<open>the paths of the file objects that are open\<close>
  printed :: "diag list"

record os_answers =
  mkdir_raises :: "pystr \<Rightarrow> bool"
  open_raises :: "pystr \<Rightarrow> bool"
  write_raises :: "pystr \<Rightarrow> pystr \<Rightarrow> bool"

text \<open>The input file object argparse opened: its name and what reading it yields
  (\<open>None\<close> when the read raises \<open>IOError\<close>).\<close>

record in_file =
  in_name :: pystr
  in_text :: "pystr option"

definition print_err :: "diag \<Rightarrow> world \<Rightarrow> world" where
  "print_err msg w = w\<lparr>printed := printed w @ [msg]\<rparr>"

text \<open>\<open>close_files\<close>: pop and close every file of \<open>open_files\<close>, the last one first.\<close>

definition close_files :: "pystr list \<Rightarrow> world \<Rightarrow> world" where
  "close_files open_files w = w\<lparr>handles := foldl (\<lambda>h p. remove1 p h) (handles w) (rev open_files)\<rparr>"

text \<open>\<open>open_file(path, "w")\<close>: the file is created or emptied and joins \<open>open_files\<close>;
  on \<open>IOError\<close> (also raised for a directory) a message, \<open>close_files()\<close> and \<open>exit(1)\<close>.
  \<open>Inl\<close> is the exit.\<close>

definition open_file ::
  "os_answers \<Rightarrow> pystr list \<Rightarrow> pystr \<Rightarrow> world \<Rightarrow> (world \<times> int) + (world \<times> pystr list)" where
  "open_file os open_files path w =
     (if open_raises os path \<or> nodes w path = Some Dir
      then Inl (close_files open_files (print_err (CouldntOpen path (u ''w'')) w), 1)
      else Inr (w\<lparr>nodes := (nodes w)(path \<mapsto> File []), handles := handles w @ [path]\<rparr>,
                open_files @ [path]))"

definition file_write :: "os_answers \<Rightarrow> pystr \<Rightarrow> pystr \<Rightarrow> world \<Rightarrow> world option" where
  "file_write os path s w =
     (if write_raises os path s then None
      else Some (w\<lparr>nodes := (nodes w)(path \<mapsto>
                  File ((case nodes w path of Some (File c) \<Rightarrow> c | _ \<Rightarrow> []) @ s))\<rparr>))"

subsection \<open>\<open>generate_files\<close> and \<open>directory\<close>\<close>

text \<open>
  The body of the \<open>for\<close> loop, lines 59 to 77, over the lines that are left; \<open>count\<close> is
  the loop's counter. The second component of the result is the exit status when
  \<open>exit\<close> was called.
\<close>

fun process_lines ::
  "os_answers \<Rightarrow> pystr \<Rightarrow> pystr \<Rightarrow> pystr \<Rightarrow> pystr list \<Rightarrow> int \<Rightarrow> pystr list \<Rightarrow> world
     \<Rightarrow> world \<times> int option" where
  "process_lines os name f2 f3 open_files count [] w = (w, None)"
| "process_lines os name f2 f3 open_files count (raw # rest) w =
     (case item0 (str_split 35 (str_strip raw)) of
        None \<Rightarrow> (w, Some 1)   \<comment> \<open>an uncaught \<open>IndexError\<close>\<close>
      | Some line \<Rightarrow>
          if line = [] then process_lines os name f2 f3 open_files count rest w
          else
            (let transcription_id = name @ u ''_'' @ fmt_04d count
             in case file_write os f2
                  (u ''<s> '' @ str_strip line @ u '' </s> ('' @ transcription_id @ u '')'' @ [10]) w of
                  None \<Rightarrow> (close_files open_files (print_err CouldntWrite w), Some 1)
                | Some w2 \<Rightarrow>
                    (case file_write os f3 (transcription_id @ [10]) w2 of
                       None \<Rightarrow> (close_files open_files (print_err CouldntWrite w2), Some 1)
                     | Some w3 \<Rightarrow>
                         process_lines os name f2 f3 open_files (count + 1) rest w3)))"

definition generate_files ::
  "os_answers \<Rightarrow> in_file \<Rightarrow> pystr option \<Rightarrow> world \<Rightarrow> world \<times> int option" where
  "generate_files os f out_dir w =
     (let name = splitext_root (basename (in_name f));
          transcription_filename = name @ u ''.transcription'';
          fileids_filename = name @ u ''.fileids'';
          use_dir = (case out_dir of None \<Rightarrow> False | Some d \<Rightarrow> d \<noteq> []);
          p2 = (if use_dir then path_join (the out_dir) transcription_filename
                else transcription_filename);
          p3 = (if use_dir then path_join (the out_dir) fileids_filename
                else fileids_filename)
      in case open_file os [in_name f] p2 w of
           Inl (w1, code) \<Rightarrow> (w1, Some code)
         | Inr (w1, open_files1) \<Rightarrow>
             (case open_file os open_files1 p3 w1 of
                Inl (w2, code) \<Rightarrow> (w2, Some code)
              | Inr (w2, open_files2) \<Rightarrow>
                  (case in_text f of
                     None \<Rightarrow>
                       (close_files open_files2 (print_err (UnableToRead (in_name f)) w2), Some 1)
                   | Some text \<Rightarrow>
                       (case process_lines os name p2 p3 open_files2 1 (readlines text) w2 of
                          (w3, Some code) \<Rightarrow> (w3, Some code)
                        | (w3, None) \<Rightarrow> (close_files open_files2 w3, None)))))"

text \<open>
  \<open>directory\<close>, the converter of \<open>--out-dir\<close>: \<open>Inl\<close> is the status of \<open>exit\<close>,
  \<open>Inr\<close> the value returned. \<open>os.path.exists\<close> and \<open>os.path.isdir\<close> read \<open>nodes\<close>.
\<close>

definition directory ::
  "os_answers \<Rightarrow> pystr \<Rightarrow> world \<Rightarrow> world \<times> (int + pystr option)" where
  "directory os path w =
     (if path = [] then (w, Inr None)
      else
        (let exists = (nodes w path \<noteq> None)
         in if exists \<and> nodes w path \<noteq> Some Dir
            then (print_err (NotADirectory path) (print_err Usage w), Inl 1)
            else if \<not> exists then
              (if mkdir_raises os path
               then (print_err (FailedToCreate path) (print_err Usage w), Inl 1)
               else (w\<lparr>nodes := (nodes w)(path \<mapsto> Dir)\<rparr>, Inr (Some path)))
            else (w, Inr (Some path))))"

text \<open>
  The script's main part, from the parsed command line on: \<open>out_dir_arg\<close> is the text
  given to \<open>--out-dir\<close>, \<open>None\<close> when the option is absent (the default \<open>None\<close> does not
  go through \<open>directory\<close>).
\<close>

definition main :: "os_answers \<Rightarrow> in_file \<Rightarrow> pystr option \<Rightarrow> world \<Rightarrow> world \<times> int option" where
  "main os f out_dir_arg w =
     (case out_dir_arg of
        None \<Rightarrow> generate_files os f None w
      | Some path \<Rightarrow>
          (case directory os path w of
             (w1, Inl code) \<Rightarrow> (w1, Some code)
           | (w1, Inr out_dir) \<Rightarrow> generate_files os f out_dir w1))"

section \<open>Notions used in the statements\<close>

subsection \<open>The recording thread\<close>

text \<open>Where the worker is: line 104 still ahead, inside the loop of lines 105 to 107,
  or at the closing statements of lines 111 to 114 and behind them.\<close>

definition before_loop :: "pc \<Rightarrow> bool" where
  "before_loop p = (p \<in> {NotStarted, L79, L89, L90, L98, L99, L100, L101, L104})"

definition in_loop :: "pc \<Rightarrow> bool" where
  "in_loop p = (case p of L105 \<Rightarrow> True | L106_read \<Rightarrow> True | L106_write b \<Rightarrow> True | L107 \<Rightarrow> True | _ \<Rightarrow> False)"

definition closing :: "pc \<Rightarrow> bool" where
  "closing p = (p \<in> {L111, L112, L113, L114, Finished})"

definition alive :: "recording_thread \<Rightarrow> bool" where
  "alive s = (case pc s of Raised x \<Rightarrow> False | _ \<Rightarrow> True)"

text \<open>How often \<open>stream.stop_stream\<close>, \<open>stream.close\<close>, \<open>wf.close\<close> and \<open>p.terminate\<close>
  have been called, and how often they have been called when the worker is at a line.\<close>

definition closing_calls :: "recording_thread \<Rightarrow> nat \<times> nat \<times> nat \<times> nat" where
  "closing_calls s = (stop_stream_calls s, stream_close_calls s, wf_close_calls s, terminate_calls s)"













definition flag_inv :: "recording_thread \<Rightarrow> bool" where
  "flag_inv s = (before_loop (pc s) \<longrightarrow> \<not> recording s)"

definition capturing :: "recording_thread \<Rightarrow> bool" where
  "capturing s = (before_loop (pc s) \<or> (in_loop (pc s) \<and> recording s) \<or> \<not> alive s)"

text \<open>The arguments line 90 gives to \<open>p.open\<close>.\<close>

definition open_args :: "args \<Rightarrow> stream_args" where
  "open_args a =
     \<lparr>sa_format = pa_format a, sa_channels = channels a, sa_rate = rate a,
      sa_input_device_index = (if device a < 0 then None else Some (device a)),
      sa_frames_per_buffer = chunk a\<rparr>"

definition dev_inv :: "recording_thread \<Rightarrow> bool" where
  "dev_inv s =
     ((pc s = NotStarted \<or> pc s = L79 \<or>
        DEVICE_INDEX s = (if device (args s) < 0 then None else Some (device (args s))))
      \<and> (stream_opened s = None \<or> stream_opened s = Some (open_args (args s))))"

subsection \<open>A sample session\<close>

text \<open>\<open>pa_record --chunk 2\<close> on a device that delivers two chunks of two bytes and then
  fails, and the thread object \<open>__init__\<close> makes of it.\<close>

definition cli0 :: cli where
  "cli0 = \<lparr>opt_output = None, opt_rate = None, opt_format = None, opt_device = None,
           opt_channels = None, opt_chunk = Some (IntText 2)\<rparr>"

definition env0 :: env where
  "env0 = \<lparr>pa_open_raises = (\<lambda>a. False), wave_open_raises = (\<lambda>p. False),
           get_sample_size = (\<lambda>f. if f = paUInt8 \<or> f = paInt8 then Some 1 else None),
           dev_read = (\<lambda>k. if k = 0 then Some [1, 2] else if k = 1 then Some [3, 4] else None)\<rparr>"

definition thread0 :: recording_thread where
  "thread0 =
     \<lparr>args = \<lparr>output_path = u ''output.wav'', rate = 8000, pa_format = paUInt8,
              device = - 1, channels = 1, chunk = 2\<rparr>,
      recording = False, pc = NotStarted, DEVICE_INDEX = None,
      p_created = False, stream_opened = None, wf_opened = None,
      wf_nchannels = None, wf_sampwidth = None, wf_framerate = None,
      wf_data = [], reads = 0, stop_stream_calls = 0, stream_close_calls = 0,
      wf_close_calls = 0, terminate_calls = 0\<rparr>"

text \<open>The same thread when the worker is about to make its first read.\<close>

definition thread1 :: recording_thread where
  "thread1 =
     thread0\<lparr>recording := True, pc := L106_read, p_created := True,
       stream_opened := Some \<lparr>sa_format = paUInt8, sa_channels = 1, sa_rate = 8000,
                              sa_input_device_index = None, sa_frames_per_buffer = 2\<rparr>,
       wf_opened := Some (u ''output.wav''), wf_nchannels := Some 1,
       wf_sampwidth := Some 1, wf_framerate := Some 8000\<rparr>"

text \<open>The schedule that starts the thread and lets the worker write both chunks and
  come to its third read, and the thread it leaves.\<close>

definition sched_two :: "event list" where
  "sched_two = Start # replicate 17 Worker"

definition thread2 :: recording_thread where
  "thread2 = thread1\<lparr>wf_data := [1, 2, 3, 4], reads := 2\<rparr>"

text \<open>The same device when it never fails, and the thread when the worker is about to
  execute line 104.\<close>

definition env1 :: env where
  "env1 = env0\<lparr>dev_read := (\<lambda>k. Some [7, 8])\<rparr>"

definition thread104 :: recording_thread where
  "thread104 = thread1\<lparr>recording := False, pc := L104\<rparr>"


text \<open>A command line with a sample rate of 0, no channels, a chunk size of 0 and a
  device index no device has.\<close>

definition thread_bad :: recording_thread where
  "thread_bad =
     thread0\<lparr>args := \<lparr>output_path = u ''output.wav'', rate = 0, pa_format = paUInt8,
                       device = 99, channels = - 1, chunk = 0\<rparr>\<rparr>"

definition cli_bad :: cli where
  "cli_bad = \<lparr>opt_output = None, opt_rate = Some (IntText 0), opt_format = None,
              opt_device = Some (IntText 99), opt_channels = Some (IntText (- 1)),
              opt_chunk = Some (IntText 0)\<rparr>"

subsection \<open>The converter\<close>

text \<open>An operating system that lets every call succeed.\<close>

definition os_ok :: os_answers where
  "os_ok = \<lparr>mkdir_raises = (\<lambda>p. False), open_raises = (\<lambda>p. False),
            write_raises = (\<lambda>p s. False)\<rparr>"

text \<open>The sample input, in a file \<open>demo.txt\<close>, and a working directory that holds it.\<close>

definition demo_text :: pystr where
  "demo_text = u ''hello world'' @ [10] @ u ''# comment'' @ [10] @ [10] @ u ''foo # bar'' @ [10]"

definition demo_file :: in_file where
  "demo_file = \<lparr>in_name = u ''demo.txt'', in_text = Some demo_text\<rparr>"

definition world0 :: world where
  "world0 = \<lparr>nodes = Map.empty(u ''demo.txt'' \<mapsto> File []), handles = [u ''demo.txt''],
             printed = []\<rparr>"

text \<open>The contract in the words of the specification. A line is ignored if, trimmed and
  cut at the first \<open>#\<close>, it is empty; its text is what is left, trimmed again. Entry
  \<open>i\<close> of the transcription file and of the fileids file.\<close>

definition spec_ignored :: "pystr \<Rightarrow> bool" where
  "spec_ignored l = (takeWhile (\<lambda>c. c \<noteq> 35) (str_strip l) = [])"

definition spec_text :: "pystr \<Rightarrow> pystr" where
  "spec_text l = str_strip (takeWhile (\<lambda>c. c \<noteq> 35) (str_strip l))"

definition spec_transcription_line :: "pystr \<Rightarrow> int \<Rightarrow> pystr \<Rightarrow> pystr" where
  "spec_transcription_line name i T =
     u ''<s> '' @ T @ u '' </s> ('' @ name @ u ''_'' @ fmt_04d i @ u '')''"

definition spec_fileids_line :: "pystr \<Rightarrow> int \<Rightarrow> pystr" where
  "spec_fileids_line name i = name @ u ''_'' @ fmt_04d i"

text \<open>The two files as the specification describes them, for the lines that are not
  ignored, numbered from \<open>count\<close> on.\<close>

fun spec_transcription :: "pystr \<Rightarrow> int \<Rightarrow> pystr list \<Rightarrow> pystr" where
  "spec_transcription name count [] = []"
| "spec_transcription name count (l # ls) =
     spec_transcription_line name count (spec_text l) @ [10] @ spec_transcription name (count + 1) ls"

fun spec_fileids :: "pystr \<Rightarrow> int \<Rightarrow> pystr list \<Rightarrow> pystr" where
  "spec_fileids name count [] = []"
| "spec_fileids name count (l # ls) =
     spec_fileids_line name count @ [10] @ spec_fileids name (count + 1) ls"



text \<open>The name \<open>generate_files\<close> derives from the input file, and the path it opens for
  a file name.\<close>

definition transcription_name :: "in_file \<Rightarrow> pystr" where
  "transcription_name f = splitext_root (basename (in_name f))"

definition target :: "pystr option \<Rightarrow> pystr \<Rightarrow> pystr" where
  "target out_dir fn =
     (case out_dir of None \<Rightarrow> fn | Some d \<Rightarrow> if d = [] then fn else path_join d fn)"

text \<open>An operating system that refuses to create directories.\<close>

definition os_no_mkdir :: os_answers where
  "os_no_mkdir = os_ok\<lparr>mkdir_raises := (\<lambda>p. True)\<rparr>"

text \<open>The working directory with a regular file \<open>out\<close>, and with a directory \<open>out\<close>.\<close>

definition world_file :: world where
  "world_file = world0\<lparr>nodes := (nodes world0)(u ''out'' \<mapsto> File (u ''x''))\<rparr>"

definition world_dir :: world where
  "world_dir = world0\<lparr>nodes := (nodes world0)(u ''out'' \<mapsto> Dir)\<rparr>"

text \<open>An input of blank lines and comments only.\<close>

definition blank_text :: pystr where
  "blank_text = [10] @ u ''  # only a comment'' @ [13, 10] @ u ''   '' @ [10] @ u ''#''"

definition blank_file :: in_file where
  "blank_file = \<lparr>in_name = u ''blank.txt'', in_text = Some blank_text\<rparr>"

section \<open>The recording thread: proofs\<close>

subsection \<open>Invariants of the two threads\<close>

lemma stop_recording_id: "\<not> recording s \<Longrightarrow> stop_recording s = s"
  by (simp add: stop_recording_def)









lemma init_state:
  "init c = Inr s \<Longrightarrow> recording s = False \<and> pc s = NotStarted \<and> p_created s = False
     \<and> stream_opened s = None \<and> wf_opened s = None \<and> wf_data s = [] \<and> reads s = 0
     \<and> closing_calls s = (0, 0, 0, 0)"
  by (auto simp: init_def closing_calls_def split: sum.splits)






lemma args_step: "args (step e ev s) = args s"
  by (cases ev; cases "pc s") (auto simp: step_def start_def stop_recording_def wstep_def Let_def split: option.splits)

lemma args_exec: "args (exec e evs s) = args s"
  by (induction evs arbitrary: s) (auto simp: args_step)








lemma exec_append: "exec e (xs @ ys) s = exec e ys (exec e xs s)"
  by (induction xs arbitrary: s) auto

lemma flag_inv_step: "flag_inv s \<Longrightarrow> flag_inv (step e ev s)"
  by (cases ev; cases "pc s")
     (auto simp: flag_inv_def step_def start_def stop_recording_def wstep_def Let_def
        before_loop_def split: option.splits)

lemma flag_inv_exec: "flag_inv s \<Longrightarrow> flag_inv (exec e evs s)"
  by (induction evs arbitrary: s) (auto simp: flag_inv_step)

lemma capturing_step: "capturing s \<Longrightarrow> ev \<noteq> Stop \<Longrightarrow> capturing (step e ev s)"
  by (cases ev; cases "pc s")
     (auto simp: capturing_def step_def start_def wstep_def Let_def
        before_loop_def in_loop_def alive_def split: option.splits)

lemma capturing_exec: "capturing s \<Longrightarrow> Stop \<notin> set evs \<Longrightarrow> capturing (exec e evs s)"
  by (induction evs arbitrary: s) (auto simp: capturing_step)

lemma capturing_not_closing: "capturing s \<Longrightarrow> \<not> closing (pc s)"
  by (cases "pc s") (auto simp: capturing_def closing_def before_loop_def in_loop_def alive_def)

lemma loop_round:
  assumes "pc s = L105" "recording s" "dev_read e (reads s) \<noteq> None"
  shows "pc (exec e [Worker, Worker, Worker, Worker] s) = L105
    \<and> recording (exec e [Worker, Worker, Worker, Worker] s)
    \<and> reads (exec e [Worker, Worker, Worker, Worker] s) = Suc (reads s)"
proof -
  from assms(3) obtain b where b: "dev_read e (reads s) = Some b" by blast
  let ?s1 = "s\<lparr>pc := L106_read\<rparr>"
  let ?s2 = "s\<lparr>reads := Suc (reads s), pc := L106_write b\<rparr>"
  let ?s3 = "s\<lparr>reads := Suc (reads s), wf_data := wf_data s @ b, pc := L107\<rparr>"
  let ?s4 = "s\<lparr>reads := Suc (reads s), wf_data := wf_data s @ b, pc := L105\<rparr>"
  have 1: "wstep e s = ?s1" using assms(1,2) by (simp add: wstep_def)
  have 2: "wstep e ?s1 = ?s2" using b by (simp add: wstep_def)
  have 3: "wstep e ?s2 = ?s3" by (simp add: wstep_def)
  have 4: "wstep e ?s3 = ?s4" by (simp add: wstep_def)
  have "exec e [Worker, Worker, Worker, Worker] s = ?s4"
    by (simp add: step_def 1 2 3 4)
  with assms(2) show ?thesis by simp
qed

lemma loop_rounds:
  assumes "\<forall>k. dev_read e k \<noteq> None"
  shows "pc s = L105 \<Longrightarrow> recording s \<Longrightarrow>
    pc (exec e (replicate (4 * m) Worker) s) = L105
    \<and> recording (exec e (replicate (4 * m) Worker) s)
    \<and> reads (exec e (replicate (4 * m) Worker) s) = reads s + m"
proof (induction m arbitrary: s)
  case 0
  then show ?case by simp
next
  case (Suc m)
  let ?s1 = "exec e [Worker, Worker, Worker, Worker] s"
  have "4 * Suc m = Suc (Suc (Suc (Suc (4 * m))))" by simp
  then have r: "replicate (4 * Suc m) Worker = [Worker, Worker, Worker, Worker] @ replicate (4 * m) Worker"
    by (simp only: replicate_Suc append_Cons append_Nil)
  from loop_round [OF Suc.prems] assms
  have 1: "pc ?s1 = L105" "recording ?s1" "reads ?s1 = Suc (reads s)" by blast+
  have "exec e (replicate (4 * Suc m) Worker) s = exec e (replicate (4 * m) Worker) ?s1"
    unfolding r by (rule exec_append)
  with Suc.IH [OF 1(1,2)] 1(3) show ?case by simp
qed

lemma dev_inv_step: "dev_inv s \<Longrightarrow> dev_inv (step e ev s)"
  by (cases ev; cases "pc s")
     (auto simp: dev_inv_def step_def start_def stop_recording_def wstep_def Let_def
        open_args_def split: option.splits)

lemma dev_inv_exec: "dev_inv s \<Longrightarrow> dev_inv (exec e evs s)"
  by (induction evs arbitrary: s) (auto simp: dev_inv_step)

lemma parse_args_device:
  "parse_args c = Inr a \<Longrightarrow>
     (case opt_device c of None \<Rightarrow> device a = - 1 | Some (IntText n) \<Rightarrow> device a = n | Some NotInt \<Rightarrow> False)"
  by (auto simp: parse_args_def conv_int_def split: sum.splits option.splits int_text.splits)

lemma conv_int_Inl: "conv_int d v = Inl x \<longleftrightarrow> x = SystemExit 2 \<and> v = Some NotInt"
  by (auto simp: conv_int_def split: option.splits int_text.splits)

lemma conv_int_Inr:
  "conv_int d v = Inr n \<longleftrightarrow> (case v of None \<Rightarrow> n = d | Some (IntText m) \<Rightarrow> n = m | Some NotInt \<Rightarrow> False)"
  by (auto simp: conv_int_def split: option.splits int_text.splits)

lemma conv_format_Inl:
  "conv_format v = Inl x \<longleftrightarrow> x = SystemExit 2 \<and> (\<exists>s. v = Some s \<and> s \<notin> fst ` set formats)"
proof -
  have d: "map_of formats (u ''paUInt8'') = Some paUInt8"
    by (simp add: formats_def u_def)
  have n: "(map_of formats s = None) = (s \<notin> fst ` set formats)" for s
    by (rule map_of_eq_None_iff)
  show ?thesis
  proof (cases v)
    case None
    then show ?thesis by (simp add: conv_format_def pa_sample_format_def d)
  next
    case (Some s)
    then show ?thesis
      by (cases "map_of formats s") (auto simp: conv_format_def pa_sample_format_def n [symmetric])
  qed
qed

lemma parse_args_Inl:
  "parse_args c = Inl x \<longleftrightarrow>
     x = SystemExit 2 \<and>
     (opt_rate c = Some NotInt \<or> (\<exists>s. opt_format c = Some s \<and> s \<notin> fst ` set formats)
      \<or> opt_device c = Some NotInt \<or> opt_channels c = Some NotInt \<or> opt_chunk c = Some NotInt)"
proof (cases "conv_int 8000 (opt_rate c)")
  case (Inl a)
  then have p: "parse_args c = Inl a" by (simp add: parse_args_def)
  from Inl have "a = SystemExit 2" "opt_rate c = Some NotInt" by (simp_all add: conv_int_Inl)
  then show ?thesis unfolding p by auto
next
  case r: (Inr r)
  then have nr: "opt_rate c \<noteq> Some NotInt" by (auto simp: conv_int_def)
  show ?thesis
  proof (cases "conv_format (opt_format c)")
    case (Inl a)
    with r have p: "parse_args c = Inl a" by (simp add: parse_args_def)
    from Inl have "a = SystemExit 2" "\<exists>s. opt_format c = Some s \<and> s \<notin> fst ` set formats"
      by (simp_all add: conv_format_Inl)
    then show ?thesis unfolding p by auto
  next
    case f: (Inr f)
    then have nf: "\<not> (\<exists>s. opt_format c = Some s \<and> s \<notin> fst ` set formats)"
      using conv_format_Inl [of "opt_format c" "SystemExit 2"] by auto
    show ?thesis
    proof (cases "conv_int (- 1) (opt_device c)")
      case (Inl a)
      with r f have p: "parse_args c = Inl a" by (simp add: parse_args_def)
      from Inl have "a = SystemExit 2" "opt_device c = Some NotInt" by (simp_all add: conv_int_Inl)
      then show ?thesis unfolding p by auto
    next
      case d: (Inr d)
      then have nd: "opt_device c \<noteq> Some NotInt" by (auto simp: conv_int_def)
      show ?thesis
      proof (cases "conv_int 1 (opt_channels c)")
        case (Inl a)
        with r f d have p: "parse_args c = Inl a" by (simp add: parse_args_def)
        from Inl have "a = SystemExit 2" "opt_channels c = Some NotInt" by (simp_all add: conv_int_Inl)
        then show ?thesis unfolding p by auto
      next
        case ch: (Inr ch)
        then have nch: "opt_channels c \<noteq> Some NotInt" by (auto simp: conv_int_def)
        show ?thesis
        proof (cases "conv_int 1024 (opt_chunk c)")
          case (Inl a)
          with r f d ch have p: "parse_args c = Inl a" by (simp add: parse_args_def)
          from Inl have "a = SystemExit 2" "opt_chunk c = Some NotInt" by (simp_all add: conv_int_Inl)
          then show ?thesis unfolding p by auto
        next
          case ck: (Inr ck)
          then have nck: "opt_chunk c \<noteq> Some NotInt" by (auto simp: conv_int_def)
          from r f d ch ck have "\<exists>a. parse_args c = Inr a" by (simp add: parse_args_def)
          with nr nf nd nch nck show ?thesis by auto
        qed
      qed
    qed
  qed
qed

lemma parse_args_Inr:
  assumes "parse_args c = Inr a"
  shows "conv_int 8000 (opt_rate c) = Inr (rate a) \<and> conv_int (- 1) (opt_device c) = Inr (device a)
    \<and> conv_int 1 (opt_channels c) = Inr (channels a) \<and> conv_int 1024 (opt_chunk c) = Inr (chunk a)"
  using assms by (simp add: parse_args_def split: sum.splits) auto

lemma init_cli0: "init cli0 = Inr thread0"
  by (simp add: init_def cli0_def thread0_def parse_args_def conv_int_def conv_format_def
      pa_sample_format_def formats_def u_def)

lemma init_cli_bad: "init cli_bad = Inr thread_bad"
  by (simp add: init_def cli_bad_def thread_bad_def thread0_def parse_args_def conv_int_def
      conv_format_def pa_sample_format_def formats_def u_def)

lemma thread2_reached: "exec env0 sched_two thread0 = thread2"
  by (simp add: sched_two_def numeral_eq_Suc step_def start_def wstep_def thread0_def thread1_def
      thread2_def env0_def u_def)

lemma thread104_reached:
  "exec env1 [Start, Worker, Worker, Worker, Worker, Worker, Worker, Worker] thread0 = thread104"
  by (simp add: step_def start_def wstep_def thread0_def thread1_def thread104_def env0_def
      env1_def u_def)

subsection \<open>The claims about the recording thread\<close>







text \<open>
  Claim C9. Line 104 sets the flag whatever it was. A \<open>stop_recording\<close> that happens while
  line 104 is still ahead changes nothing, for the flag is still cleared; if no other stop
  follows, the worker never comes to the closing statements, and from line 104 on, with a
  device that does not fail, it reads one more chunk every four statements.
\<close>

theorem stop_before_loop_is_lost:
  assumes "init c = Inr s0" and "s = exec e evs0 s0" and "before_loop (pc s)"
  shows "stop_recording s = s
    \<and> (\<forall>t. pc t = L104 \<longrightarrow> recording (wstep e t) \<and> pc (wstep e t) = L105)
    \<and> (\<forall>evs. Stop \<notin> set evs \<longrightarrow> \<not> closing (pc (exec e (Stop # evs) s)))
    \<and> (pc s = L104 \<and> (\<forall>k. dev_read e k \<noteq> None) \<longrightarrow>
         (\<forall>m. reads (exec e (Stop # Worker # replicate (4 * m) Worker) s) = reads s + m))"
proof -
  have "flag_inv s0" using init_state [OF assms(1)] by (simp add: flag_inv_def)
  then have "flag_inv s" unfolding assms(2) by (rule flag_inv_exec)
  with assms(3) have nr: "\<not> recording s" by (simp add: flag_inv_def)
  then have 1: "stop_recording s = s" by (rule stop_recording_id)
  have 2: "\<forall>t. pc t = L104 \<longrightarrow> recording (wstep e t) \<and> pc (wstep e t) = L105"
    by (simp add: wstep_def)
  have cap: "capturing s" using assms(3) by (simp add: capturing_def)
  have 3: "\<forall>evs. Stop \<notin> set evs \<longrightarrow> \<not> closing (pc (exec e (Stop # evs) s))"
    using capturing_not_closing [OF capturing_exec [OF cap]] by (simp add: step_def 1)
  have 4: "reads (exec e (Stop # Worker # replicate (4 * m) Worker) s) = reads s + m"
    if "pc s = L104" and ok: "\<forall>k. dev_read e k \<noteq> None" for m
  proof -
    let ?s1 = "wstep e s"
    from that have "pc ?s1 = L105" "recording ?s1" "reads ?s1 = reads s" by (simp_all add: wstep_def)
    with loop_rounds [OF ok, of ?s1 m] show ?thesis by (simp add: step_def 1)
  qed
  from 1 2 3 4 show ?thesis by blast
qed

text \<open>The theorem of claim C9 at the sample session.\<close>

theorem stop_before_loop_is_lost_witness:
  "init cli0 = Inr thread0
   \<and> thread104 = exec env1 [Start, Worker, Worker, Worker, Worker, Worker, Worker, Worker] thread0
   \<and> before_loop (pc thread104) \<and> pc thread104 = L104
   \<and> stop_recording thread104 = thread104
   \<and> recording (wstep env1 thread104)
   \<and> Stop \<notin> set [Worker, Worker, Worker, Start, Worker, Worker, Worker]
   \<and> \<not> closing (pc (exec env1 (Stop # [Worker, Worker, Worker, Start, Worker, Worker, Worker]) thread104))
   \<and> reads (exec env1 (Stop # Worker # replicate (4 * 5) Worker) thread104) = reads thread104 + 5"
proof -
  have h: "before_loop (pc thread104)" "pc thread104 = L104"
    by (simp_all add: thread104_def thread1_def thread0_def before_loop_def)
  have k: "\<forall>k. dev_read env1 k \<noteq> None" by (simp add: env1_def)
  have n: "Stop \<notin> set [Worker, Worker, Worker, Start, Worker, Worker, Worker]" by simp
  note T = stop_before_loop_is_lost [OF init_cli0 thread104_reached [symmetric] h(1)]
  from T have a: "stop_recording thread104 = thread104" by blast
  from T h(2) have b: "recording (wstep env1 thread104)" by blast
  from T n have c: "\<not> closing (pc (exec env1 (Stop # [Worker, Worker, Worker, Start, Worker, Worker, Worker]) thread104))"
    by blast
  from T h(2) k have d: "reads (exec env1 (Stop # Worker # replicate (4 * 5) Worker) thread104) = reads thread104 + 5"
    by blast
  from init_cli0 thread104_reached h n a b c d show ?thesis by simp
qed

text \<open>
  Claim C10. The device index is whatever integer was given, \<open>- 1\<close> when none was; no
  integer is refused by \<open>__init__\<close>. Line 90 calls \<open>p.open\<close> with
  \<open>input_device_index = None\<close> when the index is negative and with the index otherwise,
  and no stream is ever opened with other arguments.
\<close>

theorem negative_device_is_default:
  assumes "init c = Inr s0"
  shows "(case opt_device c of None \<Rightarrow> device (args s0) = - 1
          | Some (IntText n) \<Rightarrow> device (args s0) = n | Some NotInt \<Rightarrow> False)
    \<and> (\<forall>d. \<exists>s1. init (c\<lparr>opt_device := Some (IntText d)\<rparr>) = Inr s1 \<and> device (args s1) = d)
    \<and> pc (exec e [Start, Worker, Worker, Worker] s0) =
        (if pa_open_raises e (open_args (args s0)) then Raised PortAudioError else L98)
    \<and> stream_opened (exec e [Start, Worker, Worker, Worker] s0) =
        (if pa_open_raises e (open_args (args s0)) then None else Some (open_args (args s0)))
    \<and> sa_input_device_index (open_args (args s0)) =
        (if device (args s0) < 0 then None else Some (device (args s0)))
    \<and> (\<forall>evs a. stream_opened (exec e evs s0) = Some a \<longrightarrow> a = open_args (args s0))"
proof -
  from assms obtain a where a: "parse_args c = Inr a" and s0: "args s0 = a"
    by (auto simp: init_def split: sum.splits)
  have 1: "(case opt_device c of None \<Rightarrow> device (args s0) = - 1
          | Some (IntText n) \<Rightarrow> device (args s0) = n | Some NotInt \<Rightarrow> False)"
    unfolding s0 by (rule parse_args_device [OF a])
  have 2: "\<exists>s1. init (c\<lparr>opt_device := Some (IntText d)\<rparr>) = Inr s1 \<and> device (args s1) = d" for d
    using a by (auto simp: init_def parse_args_def conv_int_def split: sum.splits)
  from init_state [OF assms] have i: "pc s0 = NotStarted" "stream_opened s0 = None" by simp_all
  have 3: "pc (exec e [Start, Worker, Worker, Worker] s0) =
        (if pa_open_raises e (open_args (args s0)) then Raised PortAudioError else L98)"
    and 4: "stream_opened (exec e [Start, Worker, Worker, Worker] s0) =
        (if pa_open_raises e (open_args (args s0)) then None else Some (open_args (args s0)))"
    using i by (simp_all add: step_def start_def wstep_def open_args_def Let_def)
  have 5: "sa_input_device_index (open_args (args s0)) =
        (if device (args s0) < 0 then None else Some (device (args s0)))"
    by (simp add: open_args_def)
  have "dev_inv s0" using i by (simp add: dev_inv_def)
  then have di: "dev_inv (exec e evs s0)" for evs by (rule dev_inv_exec)
  have 6: "a' = open_args (args s0)" if "stream_opened (exec e evs s0) = Some a'" for evs a'
    using di [of evs] that by (simp add: dev_inv_def args_exec)
  from 1 2 3 4 5 6 show ?thesis by blast
qed

text \<open>The theorem of claim C10 at the sample session.\<close>

theorem negative_device_is_default_witness:
  "init cli0 = Inr thread0 \<and> opt_device cli0 = None \<and> device (args thread0) = - 1
   \<and> \<not> pa_open_raises env0 (open_args (args thread0))
   \<and> pc (exec env0 [Start, Worker, Worker, Worker] thread0) = L98
   \<and> stream_opened (exec env0 [Start, Worker, Worker, Worker] thread0) = Some (open_args (args thread0))
   \<and> sa_input_device_index (open_args (args thread0)) = None
   \<and> stream_opened thread2 = Some (open_args (args thread0))"
proof -
  note T = negative_device_is_default [OF init_cli0, of env0]
  have o: "opt_device cli0 = None" by (simp add: cli0_def)
  have r: "\<not> pa_open_raises env0 (open_args (args thread0))" by (simp add: env0_def)
  from T o have d: "device (args thread0) = - 1" by simp
  from T r have p: "pc (exec env0 [Start, Worker, Worker, Worker] thread0) = L98
    \<and> stream_opened (exec env0 [Start, Worker, Worker, Worker] thread0) = Some (open_args (args thread0))"
    by simp
  from T d have i: "sa_input_device_index (open_args (args thread0)) = None" by simp
  have "stream_opened (exec env0 sched_two thread0) \<noteq> None"
    by (simp add: thread2_reached) (simp add: thread2_def thread1_def)
  with T have s: "stream_opened (exec env0 sched_two thread0) = Some (open_args (args thread0))"
    by blast
  from init_cli0 o r d p i s show ?thesis by (simp add: thread2_reached)
qed




text \<open>Claim C4 as it was stated fails: a rate of 0, no channels and a chunk size of 0 are accepted.\<close>

theorem nonpositive_rate_accepted:
  "rate (args thread_bad) \<le> 0 \<and> channels (args thread_bad) \<le> 0 \<and> chunk (args thread_bad) \<le> 0
   \<and> opt_rate cli_bad = Some (IntText (rate (args thread_bad)))
   \<and> opt_channels cli_bad = Some (IntText (channels (args thread_bad)))
   \<and> opt_chunk cli_bad = Some (IntText (chunk (args thread_bad)))
   \<and> init cli_bad = Inr thread_bad"
  by (simp add: init_cli_bad) (simp add: cli_bad_def thread_bad_def)

text \<open>
  Claim C4 as the code has it. \<open>__init__\<close> fails exactly when the format name is not a
  key of \<open>formats\<close> or the text of an integer option is not an integer, and then with
  argparse's exit status 2; it opens nothing, whether it fails or not; and whatever
  integers are given for the rate, the device, the channels and the chunk size are
  accepted as they are.
\<close>

theorem init_validates_only_format:
  "(init c = Inl x \<longleftrightarrow>
      x = SystemExit 2 \<and>
      (opt_rate c = Some NotInt \<or> (\<exists>s. opt_format c = Some s \<and> s \<notin> fst ` set formats)
       \<or> opt_device c = Some NotInt \<or> opt_channels c = Some NotInt \<or> opt_chunk c = Some NotInt))
   \<and> (\<forall>t. init c = Inr t \<longrightarrow>
         pc t = NotStarted \<and> \<not> p_created t \<and> stream_opened t = None \<and> wf_opened t = None)
   \<and> (\<forall>r d ch ck.
         opt_rate c = Some (IntText r) \<and> opt_device c = Some (IntText d)
         \<and> opt_channels c = Some (IntText ch) \<and> opt_chunk c = Some (IntText ck)
         \<and> (opt_format c = None \<or> (\<exists>s \<in> fst ` set formats. opt_format c = Some s)) \<longrightarrow>
         (\<exists>t. init c = Inr t \<and> rate (args t) = r \<and> device (args t) = d
              \<and> channels (args t) = ch \<and> chunk (args t) = ck))"
proof -
  have i: "init c = Inl x \<longleftrightarrow> parse_args c = Inl x" for x
    by (simp add: init_def split: sum.splits)
  have 1: "init c = Inl x \<longleftrightarrow>
      x = SystemExit 2 \<and>
      (opt_rate c = Some NotInt \<or> (\<exists>s. opt_format c = Some s \<and> s \<notin> fst ` set formats)
       \<or> opt_device c = Some NotInt \<or> opt_channels c = Some NotInt \<or> opt_chunk c = Some NotInt)"
    unfolding i by (rule parse_args_Inl)
  have 2: "\<forall>t. init c = Inr t \<longrightarrow>
         pc t = NotStarted \<and> \<not> p_created t \<and> stream_opened t = None \<and> wf_opened t = None"
    using init_state by blast
  have 3: "\<exists>t. init c = Inr t \<and> rate (args t) = r \<and> device (args t) = d
              \<and> channels (args t) = ch \<and> chunk (args t) = ck"
    if h: "opt_rate c = Some (IntText r) \<and> opt_device c = Some (IntText d)
         \<and> opt_channels c = Some (IntText ch) \<and> opt_chunk c = Some (IntText ck)
         \<and> (opt_format c = None \<or> (\<exists>s \<in> fst ` set formats. opt_format c = Some s))"
    for r d ch ck
  proof -
    from h have "\<not> (\<exists>s. opt_format c = Some s \<and> s \<notin> fst ` set formats)"
      by (metis option.distinct(1) option.inject)
    with h have "\<not> (\<exists>y. parse_args c = Inl y)" unfolding parse_args_Inl by simp
    then obtain a where a: "parse_args c = Inr a" by (cases "parse_args c") auto
    from parse_args_Inr [OF a] h
    have "rate a = r \<and> device a = d \<and> channels a = ch \<and> chunk a = ck"
      by (simp add: conv_int_def)
    with a show ?thesis by (simp add: init_def)
  qed
  from 1 2 3 show ?thesis by blast
qed

text \<open>The theorem of claim C4 at the sample session.\<close>

theorem init_validates_only_format_witness:
  "opt_rate cli_bad = Some (IntText 0) \<and> opt_device cli_bad = Some (IntText 99)
   \<and> opt_channels cli_bad = Some (IntText (- 1)) \<and> opt_chunk cli_bad = Some (IntText 0)
   \<and> opt_format cli_bad = None
   \<and> init cli_bad = Inr thread_bad
   \<and> rate (args thread_bad) = 0 \<and> device (args thread_bad) = 99
   \<and> channels (args thread_bad) = - 1 \<and> chunk (args thread_bad) = 0
   \<and> pc thread_bad = NotStarted \<and> \<not> p_created thread_bad
   \<and> stream_opened thread_bad = None \<and> wf_opened thread_bad = None"
proof -
  have h: "opt_rate cli_bad = Some (IntText 0) \<and> opt_device cli_bad = Some (IntText 99)
         \<and> opt_channels cli_bad = Some (IntText (- 1)) \<and> opt_chunk cli_bad = Some (IntText 0)
         \<and> (opt_format cli_bad = None \<or> (\<exists>s \<in> fst ` set formats. opt_format cli_bad = Some s))"
    and f: "opt_format cli_bad = None"
    by (simp_all add: cli_bad_def)
  note T = init_validates_only_format [of cli_bad "SystemExit 2"]
  from T h obtain t where t: "init cli_bad = Inr t" "rate (args t) = 0" "device (args t) = 99"
    "channels (args t) = - 1" "chunk (args t) = 0" by blast
  from T t(1) have o: "pc t = NotStarted \<and> \<not> p_created t \<and> stream_opened t = None \<and> wf_opened t = None"
    by blast
  from t(1) have "t = thread_bad" by (simp add: init_cli_bad)
  with h f t o show ?thesis by blast
qed

section \<open>The converter: proofs\<close>

subsection \<open>Strings\<close>

lemma str_split_takeWhile:
  "\<exists>rest. str_split sep s = takeWhile (\<lambda>c. c \<noteq> sep) s # rest"
  by (induction s) (auto split: list.splits)

lemma item0_str_split: "item0 (str_split sep s) = Some (takeWhile (\<lambda>c. c \<noteq> sep) s)"
  using str_split_takeWhile [of sep s] by (auto simp: item0_def)

lemma file_write_ok:
  "\<not> write_raises os p s \<Longrightarrow> nodes w p = Some (File c) \<Longrightarrow>
     file_write os p s w = Some (w\<lparr>nodes := (nodes w)(p \<mapsto> File (c @ s))\<rparr>)"
  by (simp add: file_write_def)

lemma process_lines_ok:
  assumes "\<forall>s. \<not> write_raises os f2 s" and "\<forall>s. \<not> write_raises os f3 s" and "f2 \<noteq> f3"
  shows "nodes w f2 = Some (File c2) \<Longrightarrow> nodes w f3 = Some (File c3) \<Longrightarrow>
    process_lines os name f2 f3 ofs count ls w =
      (w\<lparr>nodes := (nodes w)
           (f2 \<mapsto> File (c2 @ spec_transcription name count (filter (\<lambda>l. \<not> spec_ignored l) ls)),
            f3 \<mapsto> File (c3 @ spec_fileids name count (filter (\<lambda>l. \<not> spec_ignored l) ls)))\<rparr>, None)"
proof (induction ls arbitrary: count w c2 c3)
  case Nil
  then have e: "(nodes w)(f2 \<mapsto> File c2, f3 \<mapsto> File c3) = nodes w" by auto
  have "w\<lparr>nodes := nodes w\<rparr> = w" by simp
  then have "w\<lparr>nodes := (nodes w)(f2 \<mapsto> File c2, f3 \<mapsto> File c3)\<rparr> = w"
    unfolding e .
  then show ?case
    by (simp only: process_lines.simps filter.simps spec_transcription.simps spec_fileids.simps
        append_Nil2)
next
  case (Cons l ls)
  show ?case
  proof (cases "spec_ignored l")
    case True
    then have "process_lines os name f2 f3 ofs count (l # ls) w = process_lines os name f2 f3 ofs count ls w"
      by (simp add: item0_str_split spec_ignored_def)
    with True Cons show ?thesis by simp
  next
    case False
    let ?t = "spec_transcription_line name count (spec_text l) @ [10]"
    let ?i = "spec_fileids_line name count @ [10]"
    let ?w2 = "w\<lparr>nodes := (nodes w)(f2 \<mapsto> File (c2 @ ?t))\<rparr>"
    let ?w3 = "?w2\<lparr>nodes := (nodes ?w2)(f3 \<mapsto> File (c3 @ ?i))\<rparr>"
    have w2: "file_write os f2 ?t w = Some ?w2"
      using assms(1) Cons.prems(1) by (simp add: file_write_ok)
    have "nodes ?w2 f3 = Some (File c3)" using Cons.prems(2) assms(3) by simp
    then have w3: "file_write os f3 ?i ?w2 = Some ?w3"
      using assms(2) by (simp add: file_write_ok)
    have n2: "nodes ?w3 f2 = Some (File (c2 @ ?t))" using assms(3) by simp
    have n3: "nodes ?w3 f3 = Some (File (c3 @ ?i))" by simp
    have "process_lines os name f2 f3 ofs count (l # ls) w =
          process_lines os name f2 f3 ofs (count + 1) ls ?w3"
      using False w2 w3
      by (simp add: item0_str_split spec_ignored_def spec_text_def spec_transcription_line_def
          spec_fileids_line_def Let_def)
    also have "\<dots> = (?w3\<lparr>nodes := (nodes ?w3)
           (f2 \<mapsto> File ((c2 @ ?t) @ spec_transcription name (count + 1) (filter (\<lambda>l. \<not> spec_ignored l) ls)),
            f3 \<mapsto> File ((c3 @ ?i) @ spec_fileids name (count + 1) (filter (\<lambda>l. \<not> spec_ignored l) ls)))\<rparr>, None)"
      by (rule Cons.IH [OF n2 n3])
    finally have r: "process_lines os name f2 f3 ofs count (l # ls) w =
        (?w3\<lparr>nodes := (nodes ?w3)
           (f2 \<mapsto> File ((c2 @ ?t) @ spec_transcription name (count + 1) (filter (\<lambda>l. \<not> spec_ignored l) ls)),
            f3 \<mapsto> File ((c3 @ ?i) @ spec_fileids name (count + 1) (filter (\<lambda>l. \<not> spec_ignored l) ls)))\<rparr>, None)" .
    have g: "(nodes ?w3)(f2 \<mapsto> A, f3 \<mapsto> B) = (nodes w)(f2 \<mapsto> A, f3 \<mapsto> B)" for A B
      by (rule ext) simp
    have v: "?w3\<lparr>nodes := G\<rparr> = w\<lparr>nodes := G\<rparr>" for G by simp
    show ?thesis unfolding r g v using False
      by (simp only: filter.simps spec_transcription.simps spec_fileids.simps append_assoc
          simp_thms if_True if_False)
  qed
qed

subsection \<open>\<open>generate_files\<close> when the operating system lets it\<close>

lemma path_join_inj: "hd (b @ x) = hd (b @ y) \<Longrightarrow> b @ x \<noteq> [] \<Longrightarrow> b @ y \<noteq> [] \<Longrightarrow>
    path_join a (b @ x) = path_join a (b @ y) \<Longrightarrow> x = y"
  by (auto simp: path_join_def split: if_splits)

lemma target_distinct:
  "target d (n @ u ''.transcription'') \<noteq> target d (n @ u ''.fileids'')"
proof
  assume a: "target d (n @ u ''.transcription'') = target d (n @ u ''.fileids'')"
  have ne: "u ''.transcription'' \<noteq> u ''.fileids''" by (simp add: u_def)
  have hd: "hd (n @ u ''.transcription'') = hd (n @ u ''.fileids'')"
    by (cases n) (simp_all add: u_def)
  have nn: "n @ u ''.transcription'' \<noteq> []" "n @ u ''.fileids'' \<noteq> []" by (simp_all add: u_def)
  show False
  proof (cases "d = None \<or> d = Some []")
    case True
    with a have "n @ u ''.transcription'' = n @ u ''.fileids''"
      by (auto simp: target_def)
    with ne show False by simp
  next
    case False
    then obtain p where "d = Some p" "p \<noteq> []" by auto
    with a have "path_join p (n @ u ''.transcription'') = path_join p (n @ u ''.fileids'')"
      by (simp add: target_def)
    from path_join_inj [OF hd nn this] ne show False by simp
  qed
qed

lemma generate_files_target:
  "generate_files os f out_dir w =
     (case open_file os [in_name f] (target out_dir (transcription_name f @ u ''.transcription'')) w of
        Inl (w1, code) \<Rightarrow> (w1, Some code)
      | Inr (w1, open_files1) \<Rightarrow>
          (case open_file os open_files1 (target out_dir (transcription_name f @ u ''.fileids'')) w1 of
             Inl (w2, code) \<Rightarrow> (w2, Some code)
           | Inr (w2, open_files2) \<Rightarrow>
               (case in_text f of
                  None \<Rightarrow>
                    (close_files open_files2 (print_err (UnableToRead (in_name f)) w2), Some 1)
                | Some text \<Rightarrow>
                    (case process_lines os (transcription_name f)
                            (target out_dir (transcription_name f @ u ''.transcription''))
                            (target out_dir (transcription_name f @ u ''.fileids''))
                            open_files2 1 (readlines text) w2 of
                       (w3, Some code) \<Rightarrow> (w3, Some code)
                     | (w3, None) \<Rightarrow> (close_files open_files2 w3, None)))))"
proof -
  have t: "(if (case out_dir of None \<Rightarrow> False | Some d \<Rightarrow> d \<noteq> [])
            then path_join (the out_dir) x else x) = target out_dir x" for x
    by (cases out_dir) (simp_all add: target_def)
  show ?thesis unfolding generate_files_def Let_def t transcription_name_def ..
qed

lemma generate_files_ok:
  assumes "in_text f = Some text"
    and "p2 = target out_dir (transcription_name f @ u ''.transcription'')"
    and "p3 = target out_dir (transcription_name f @ u ''.fileids'')"
    and "\<not> open_raises os p2" and "\<not> open_raises os p3"
    and "nodes w p2 \<noteq> Some Dir" and "nodes w p3 \<noteq> Some Dir"
    and "\<forall>s. \<not> write_raises os p2 s" and "\<forall>s. \<not> write_raises os p3 s"
  shows "snd (generate_files os f out_dir w) = None
    \<and> nodes (fst (generate_files os f out_dir w)) =
        (nodes w)
          (p2 \<mapsto> File (spec_transcription (transcription_name f) 1
                          (filter (\<lambda>l. \<not> spec_ignored l) (readlines text))),
           p3 \<mapsto> File (spec_fileids (transcription_name f) 1
                          (filter (\<lambda>l. \<not> spec_ignored l) (readlines text))))
    \<and> printed (fst (generate_files os f out_dir w)) = printed w"
proof -
  have d: "p2 \<noteq> p3" unfolding assms(2,3) by (rule target_distinct)
  let ?w1 = "w\<lparr>nodes := (nodes w)(p2 \<mapsto> File []), handles := handles w @ [p2]\<rparr>"
  let ?w2 = "?w1\<lparr>nodes := (nodes ?w1)(p3 \<mapsto> File []), handles := handles ?w1 @ [p3]\<rparr>"
  let ?T = "spec_transcription (transcription_name f) 1 (filter (\<lambda>l. \<not> spec_ignored l) (readlines text))"
  let ?F = "spec_fileids (transcription_name f) 1 (filter (\<lambda>l. \<not> spec_ignored l) (readlines text))"
  let ?w3 = "?w2\<lparr>nodes := (nodes ?w2)(p2 \<mapsto> File ([] @ ?T), p3 \<mapsto> File ([] @ ?F))\<rparr>"
  have o1: "open_file os [in_name f] p2 w = Inr (?w1, [in_name f, p2])"
    using assms(4,6) by (simp add: open_file_def)
  have "nodes ?w1 p3 \<noteq> Some Dir" using assms(7) d by simp
  then have o2: "open_file os [in_name f, p2] p3 ?w1 = Inr (?w2, [in_name f, p2, p3])"
    using assms(5) by (simp add: open_file_def)
  have n2: "nodes ?w2 p2 = Some (File [])" using d by simp
  have n3: "nodes ?w2 p3 = Some (File [])" by simp
  have pl: "process_lines os (transcription_name f) p2 p3 [in_name f, p2, p3] 1 (readlines text) ?w2
      = (?w3, None)"
    by (rule process_lines_ok [OF assms(8,9) d n2 n3])
  have g: "generate_files os f out_dir w = (close_files [in_name f, p2, p3] ?w3, None)"
    unfolding generate_files_target assms(2) [symmetric] assms(3) [symmetric]
    by (simp only: o1 o2 pl assms(1) sum.case prod.case option.case)
  have n: "nodes (close_files [in_name f, p2, p3] ?w3) =
      (nodes w)(p2 \<mapsto> File ?T, p3 \<mapsto> File ?F)"
    by (rule ext) (simp add: close_files_def)
  have e: "printed (close_files [in_name f, p2, p3] ?w3) = printed w"
    by (simp add: close_files_def)
  show ?thesis unfolding g using n e by simp
qed

subsection \<open>Lines, numbers and blank lines\<close>








lemma str_strip_Nil_iff: "str_strip s = [] \<longleftrightarrow> dropWhile is_space s = []"
proof
  assume "dropWhile is_space s = []"
  then show "str_strip s = []" by (simp add: str_strip_def del: dropWhile_eq_Nil_conv)
next
  assume a: "str_strip s = []"
  show "dropWhile is_space s = []"
  proof (rule ccontr)
    assume "dropWhile is_space s \<noteq> []"
    then obtain x xs where d: "dropWhile is_space s = x # xs" by (cases "dropWhile is_space s") auto
    then have "\<not> is_space x" using hd_dropWhile [of is_space s] by simp
    then have "dropWhile is_space (rev xs @ [x]) \<noteq> []" by (simp add: dropWhile_append)
    with a d show False by (simp add: str_strip_def)
  qed
qed

lemma hd_str_strip: "str_strip s \<noteq> [] \<Longrightarrow> hd (str_strip s) = hd (dropWhile is_space s)"
proof -
  assume "str_strip s \<noteq> []"
  then have "dropWhile is_space s \<noteq> []" by (simp add: str_strip_Nil_iff)
  then obtain x xs where d: "dropWhile is_space s = x # xs" by (cases "dropWhile is_space s") auto
  then have nx: "\<not> is_space x" using hd_dropWhile [of is_space s] by simp
  have "dropWhile is_space (rev xs @ [x]) = dropWhile is_space (rev xs) @ [x]"
    using nx by (simp add: dropWhile_append)
  then have "str_strip s = x # rev (dropWhile is_space (rev xs))"
    by (simp add: str_strip_def d)
  with d show ?thesis by simp
qed

lemma spec_ignored_iff:
  "spec_ignored l \<longleftrightarrow> dropWhile is_space l = [] \<or> hd (dropWhile is_space l) = 35"
proof (cases "str_strip l = []")
  case True
  then have "dropWhile is_space l = []" by (simp only: str_strip_Nil_iff)
  with True show ?thesis by (simp add: spec_ignored_def del: dropWhile_eq_Nil_conv)
next
  case False
  then have "spec_ignored l \<longleftrightarrow> hd (str_strip l) = 35"
    by (cases "str_strip l") (auto simp: spec_ignored_def)
  moreover from False have "dropWhile is_space l \<noteq> []" by (simp only: str_strip_Nil_iff not_False_eq_True)
  ultimately show ?thesis using hd_str_strip [OF False] by (simp del: dropWhile_eq_Nil_conv)
qed

lemma spec_text_Nil_iff: "spec_text l = [] \<longleftrightarrow> spec_ignored l"
proof
  assume "spec_ignored l"
  then show "spec_text l = []" by (simp add: spec_ignored_def spec_text_def str_strip_def)
next
  assume a: "spec_text l = []"
  show "spec_ignored l"
  proof (rule ccontr)
    assume n: "\<not> spec_ignored l"
    then have ne: "str_strip l \<noteq> []" by (auto simp: spec_ignored_def)
    then obtain x xs where s: "str_strip l = x # xs" by (cases "str_strip l") auto
    from hd_str_strip [OF ne] s have "x = hd (dropWhile is_space l)" by simp
    moreover from ne have "dropWhile is_space l \<noteq> []" by (simp add: str_strip_Nil_iff)
    ultimately have nx: "\<not> is_space x" using hd_dropWhile [of is_space l] by simp
    from n s have x35: "x \<noteq> 35" by (auto simp: spec_ignored_def split: if_splits)
    then have "takeWhile (\<lambda>c. c \<noteq> 35) (str_strip l) = x # takeWhile (\<lambda>c. c \<noteq> 35) xs"
      by (simp add: s)
    then have "dropWhile is_space (takeWhile (\<lambda>c. c \<noteq> 35) (str_strip l)) \<noteq> []"
      using nx by simp
    with a show False by (simp add: spec_text_def str_strip_Nil_iff)
  qed
qed

lemma process_lines_all_ignored:
  "\<forall>l \<in> set ls. spec_ignored l \<Longrightarrow> process_lines os name f2 f3 ofs count ls w = (w, None)"
  by (induction ls) (simp_all add: item0_str_split spec_ignored_def)

lemma process_lines_kept:
  assumes "\<not> spec_ignored l" and "\<forall>s. \<not> write_raises os f2 s" and "\<forall>s. \<not> write_raises os f3 s"
    and "f2 \<noteq> f3" and "nodes w f2 = Some (File c2)" and "nodes w f3 = Some (File c3)"
  shows "process_lines os name f2 f3 ofs count (l # ls) w =
     process_lines os name f2 f3 ofs (count + 1) ls
       (w\<lparr>nodes := (nodes w)
            (f2 \<mapsto> File (c2 @ spec_transcription_line name count (spec_text l) @ [10]),
             f3 \<mapsto> File (c3 @ spec_fileids_line name count @ [10]))\<rparr>)"
proof -
  let ?t = "spec_transcription_line name count (spec_text l) @ [10]"
  let ?i = "spec_fileids_line name count @ [10]"
  let ?w2 = "w\<lparr>nodes := (nodes w)(f2 \<mapsto> File (c2 @ ?t))\<rparr>"
  let ?w3 = "?w2\<lparr>nodes := (nodes ?w2)(f3 \<mapsto> File (c3 @ ?i))\<rparr>"
  have w2: "file_write os f2 ?t w = Some ?w2"
    using assms(2,5) by (simp add: file_write_ok)
  have "nodes ?w2 f3 = Some (File c3)" using assms(4,6) by simp
  then have w3: "file_write os f3 ?i ?w2 = Some ?w3"
    using assms(3) by (simp add: file_write_ok)
  have "process_lines os name f2 f3 ofs count (l # ls) w =
        process_lines os name f2 f3 ofs (count + 1) ls ?w3"
    using assms(1) w2 w3
    by (simp add: item0_str_split spec_ignored_def spec_text_def spec_transcription_line_def
        spec_fileids_line_def Let_def)
  then show ?thesis by simp
qed

lemma generate_files_all_ignored:
  assumes "in_text f = Some text" and "\<forall>l \<in> set (readlines text). spec_ignored l"
    and "p2 = target out_dir (transcription_name f @ u ''.transcription'')"
    and "p3 = target out_dir (transcription_name f @ u ''.fileids'')"
    and "\<not> open_raises os p2" and "\<not> open_raises os p3"
    and "nodes w p2 \<noteq> Some Dir" and "nodes w p3 \<noteq> Some Dir"
  shows "snd (generate_files os f out_dir w) = None
    \<and> nodes (fst (generate_files os f out_dir w)) = (nodes w)(p2 \<mapsto> File [], p3 \<mapsto> File [])
    \<and> printed (fst (generate_files os f out_dir w)) = printed w"
proof -
  have d: "p2 \<noteq> p3" unfolding assms(3,4) by (rule target_distinct)
  let ?w1 = "w\<lparr>nodes := (nodes w)(p2 \<mapsto> File []), handles := handles w @ [p2]\<rparr>"
  let ?w2 = "?w1\<lparr>nodes := (nodes ?w1)(p3 \<mapsto> File []), handles := handles ?w1 @ [p3]\<rparr>"
  have o1: "open_file os [in_name f] p2 w = Inr (?w1, [in_name f, p2])"
    using assms(5,7) by (simp add: open_file_def)
  have "nodes ?w1 p3 \<noteq> Some Dir" using assms(8) d by simp
  then have o2: "open_file os [in_name f, p2] p3 ?w1 = Inr (?w2, [in_name f, p2, p3])"
    using assms(6) by (simp add: open_file_def)
  have pl: "process_lines os (transcription_name f) p2 p3 [in_name f, p2, p3] 1 (readlines text) ?w2
      = (?w2, None)"
    by (rule process_lines_all_ignored [OF assms(2)])
  have g: "generate_files os f out_dir w = (close_files [in_name f, p2, p3] ?w2, None)"
    unfolding generate_files_target assms(3) [symmetric] assms(4) [symmetric]
    by (simp only: o1 o2 pl assms(1) sum.case prod.case option.case)
  have n: "nodes (close_files [in_name f, p2, p3] ?w2) = (nodes w)(p2 \<mapsto> File [], p3 \<mapsto> File [])"
    by (rule ext) (simp add: close_files_def)
  have e: "printed (close_files [in_name f, p2, p3] ?w2) = printed w"
    by (simp add: close_files_def)
  show ?thesis unfolding g using n e by simp
qed

lemma set_splitext_root: "set (splitext_root p) \<subseteq> set p"
proof -
  have t: "set (rev (tl (dropWhile (\<lambda>c. c \<noteq> 46) (rev p)))) \<subseteq> set p"
  proof
    fix x assume "x \<in> set (rev (tl (dropWhile (\<lambda>c. c \<noteq> 46) (rev p))))"
    then have "x \<in> set (dropWhile (\<lambda>c. c \<noteq> 46) (rev p))"
      by (cases "dropWhile (\<lambda>c. c \<noteq> 46) (rev p)") simp_all
    then have "x \<in> set (rev p)" by (rule set_dropWhileD)
    then show "x \<in> set p" by simp
  qed
  have k: "(if A then x else if B then y else x) = x \<or> (if A then x else if B then y else x) = y"
    for A B and x y :: pystr by simp
  have "splitext_root p = p \<or> splitext_root p = rev (tl (dropWhile (\<lambda>c. c \<noteq> 46) (rev p)))"
    unfolding splitext_root_def Let_def by (rule k)
  with t show ?thesis by (metis subset_refl)
qed

lemma transcription_name_no_slash: "47 \<notin> set (transcription_name f)"
proof -
  have "47 \<notin> set (basename (in_name f))"
    using set_takeWhileD [of 47 "\<lambda>c. c \<noteq> 47" "rev (in_name f)"] by (auto simp: basename_def)
  with set_splitext_root [of "basename (in_name f)"] show ?thesis
    by (auto simp: transcription_name_def)
qed

lemma target_in_dir:
  assumes "path \<noteq> []" and "x \<noteq> []" and "hd x \<noteq> 47"
  shows "target (Some path) (transcription_name f @ x) =
     (if last path = 47 then path @ transcription_name f @ x
      else path @ [47] @ transcription_name f @ x)"
proof -
  have "hd (transcription_name f @ x) \<noteq> 47"
    using transcription_name_no_slash [of f] assms(2,3)
    by (cases "transcription_name f") auto
  with assms(1) show ?thesis by (simp add: target_def path_join_def)
qed

lemma main_cases:
  "(path \<noteq> [] \<and> (\<exists>c. nodes w path = Some (File c)) \<longrightarrow>
      main os f (Some path) w = (print_err (NotADirectory path) (print_err Usage w), Some 1))
   \<and> (path \<noteq> [] \<and> nodes w path = None \<and> mkdir_raises os path \<longrightarrow>
      main os f (Some path) w = (print_err (FailedToCreate path) (print_err Usage w), Some 1))
   \<and> (path \<noteq> [] \<and> nodes w path = None \<and> \<not> mkdir_raises os path \<longrightarrow>
      main os f (Some path) w = generate_files os f (Some path) (w\<lparr>nodes := (nodes w)(path \<mapsto> Dir)\<rparr>))
   \<and> (path \<noteq> [] \<and> nodes w path = Some Dir \<longrightarrow>
      main os f (Some path) w = generate_files os f (Some path) w)
   \<and> main os f (Some []) w = generate_files os f None w
   \<and> main os f None w = generate_files os f None w"
  by (auto simp: main_def directory_def Let_def)

subsection \<open>The claims about the converter\<close>

lemma demo_name: "transcription_name demo_file = u ''demo''"
  by (simp add: transcription_name_def demo_file_def basename_def splitext_root_def u_def)






text \<open>
  Claim C7. The test of line 64 holds exactly when the line, trimmed and cut at the first
  \<open>#\<close>, is empty, that is when the line is blank or its first character that is not
  white space is \<open>#\<close>; the text of a line that is kept is not empty. An ignored line
  leaves the files and the counter as they are, any other line adds an entry to each file
  and one to the counter. When every line is ignored and the two files can be opened,
  \<open>generate_files\<close> ends without an exit and without a message, and both files are empty.
\<close>

theorem blank_and_comment_lines_ignored:
  "(item0 (str_split 35 (str_strip l)) = Some [] \<longleftrightarrow> spec_ignored l)
   \<and> (spec_ignored l \<longleftrightarrow> dropWhile is_space l = [] \<or> hd (dropWhile is_space l) = 35)
   \<and> (spec_ignored l \<longleftrightarrow> spec_text l = [])
   \<and> (spec_ignored l \<longrightarrow>
        process_lines os name f2 f3 ofs count (l # ls) w = process_lines os name f2 f3 ofs count ls w)
   \<and> (\<not> spec_ignored l \<and> (\<forall>s. \<not> write_raises os f2 s) \<and> (\<forall>s. \<not> write_raises os f3 s)
        \<and> f2 \<noteq> f3 \<and> nodes w f2 = Some (File c2) \<and> nodes w f3 = Some (File c3) \<longrightarrow>
        process_lines os name f2 f3 ofs count (l # ls) w =
          process_lines os name f2 f3 ofs (count + 1) ls
            (w\<lparr>nodes := (nodes w)
                 (f2 \<mapsto> File (c2 @ spec_transcription_line name count (spec_text l) @ [10]),
                  f3 \<mapsto> File (c3 @ spec_fileids_line name count @ [10]))\<rparr>))
   \<and> (in_text f = Some body \<and> (\<forall>x \<in> set (readlines body). spec_ignored x)
        \<and> \<not> open_raises os (target out_dir (transcription_name f @ u ''.transcription''))
        \<and> \<not> open_raises os (target out_dir (transcription_name f @ u ''.fileids''))
        \<and> nodes v (target out_dir (transcription_name f @ u ''.transcription'')) \<noteq> Some Dir
        \<and> nodes v (target out_dir (transcription_name f @ u ''.fileids'')) \<noteq> Some Dir \<longrightarrow>
        snd (generate_files os f out_dir v) = None
        \<and> nodes (fst (generate_files os f out_dir v)) =
            (nodes v)(target out_dir (transcription_name f @ u ''.transcription'') \<mapsto> File [],
                      target out_dir (transcription_name f @ u ''.fileids'') \<mapsto> File [])
        \<and> printed (fst (generate_files os f out_dir v)) = printed v)"
proof -
  have 1: "item0 (str_split 35 (str_strip l)) = Some [] \<longleftrightarrow> spec_ignored l"
    by (simp add: item0_str_split spec_ignored_def)
  have 2: "spec_ignored l \<longleftrightarrow> dropWhile is_space l = [] \<or> hd (dropWhile is_space l) = 35"
    by (rule spec_ignored_iff)
  have 3: "spec_ignored l \<longleftrightarrow> spec_text l = []"
    by (simp only: spec_text_Nil_iff)
  have 4: "process_lines os name f2 f3 ofs count (l # ls) w = process_lines os name f2 f3 ofs count ls w"
    if "spec_ignored l"
    using that by (simp add: item0_str_split spec_ignored_def)
  have 5: "process_lines os name f2 f3 ofs count (l # ls) w =
          process_lines os name f2 f3 ofs (count + 1) ls
            (w\<lparr>nodes := (nodes w)
                 (f2 \<mapsto> File (c2 @ spec_transcription_line name count (spec_text l) @ [10]),
                  f3 \<mapsto> File (c3 @ spec_fileids_line name count @ [10]))\<rparr>)"
    if "\<not> spec_ignored l \<and> (\<forall>s. \<not> write_raises os f2 s) \<and> (\<forall>s. \<not> write_raises os f3 s)
        \<and> f2 \<noteq> f3 \<and> nodes w f2 = Some (File c2) \<and> nodes w f3 = Some (File c3)"
    using that by (intro process_lines_kept) blast+
  have 6: "snd (generate_files os f out_dir v) = None
        \<and> nodes (fst (generate_files os f out_dir v)) =
            (nodes v)(target out_dir (transcription_name f @ u ''.transcription'') \<mapsto> File [],
                      target out_dir (transcription_name f @ u ''.fileids'') \<mapsto> File [])
        \<and> printed (fst (generate_files os f out_dir v)) = printed v"
    if "in_text f = Some body \<and> (\<forall>x \<in> set (readlines body). spec_ignored x)
        \<and> \<not> open_raises os (target out_dir (transcription_name f @ u ''.transcription''))
        \<and> \<not> open_raises os (target out_dir (transcription_name f @ u ''.fileids''))
        \<and> nodes v (target out_dir (transcription_name f @ u ''.transcription'')) \<noteq> Some Dir
        \<and> nodes v (target out_dir (transcription_name f @ u ''.fileids'')) \<noteq> Some Dir"
    using that by (intro generate_files_all_ignored [OF _ _ refl refl]) blast+
  from 1 2 3 4 5 6 show ?thesis by blast
qed

lemma blank_lines:
  "readlines blank_text = [[10], u ''  # only a comment'' @ [10], u ''   '' @ [10], u ''#'']"
  by (simp add: readlines_def blank_text_def u_def)

lemma blank_name: "transcription_name blank_file = u ''blank''"
  by (simp add: transcription_name_def blank_file_def basename_def splitext_root_def u_def)

text \<open>The theorem of claim C7 at an input of blank lines and comments.\<close>

theorem blank_and_comment_lines_ignored_witness:
  "spec_ignored (u ''  # only a comment'' @ [10])
   \<and> item0 (str_split 35 (str_strip (u ''  # only a comment'' @ [10]))) = Some []
   \<and> hd (dropWhile is_space (u ''  # only a comment'' @ [10])) = 35
   \<and> spec_text (u ''  # only a comment'' @ [10]) = []
   \<and> in_text blank_file = Some blank_text
   \<and> snd (generate_files os_ok blank_file None world0) = None
   \<and> nodes (fst (generate_files os_ok blank_file None world0)) (u ''blank.transcription'') = Some (File [])
   \<and> nodes (fst (generate_files os_ok blank_file None world0)) (u ''blank.fileids'') = Some (File [])
   \<and> printed (fst (generate_files os_ok blank_file None world0)) = []"
proof -
  let ?l = "u ''  # only a comment'' @ [10]"
  have i: "spec_ignored ?l"
    by (simp add: spec_ignored_def str_strip_def is_space_def u_def)
  have h: "hd (dropWhile is_space ?l) = 35" by (simp add: is_space_def u_def)
  note L = blank_and_comment_lines_ignored [of ?l]
  from L i have a: "item0 (str_split 35 (str_strip ?l)) = Some []" by blast
  from L i have b: "spec_text ?l = []" by blast
  have t: "in_text blank_file = Some blank_text" by (simp add: blank_file_def)
  have g: "\<forall>x \<in> set (readlines blank_text). spec_ignored x"
    unfolding blank_lines by (simp add: spec_ignored_def str_strip_def is_space_def u_def)
  have p: "target None (transcription_name blank_file @ u ''.transcription'') = u ''blank.transcription''"
    "target None (transcription_name blank_file @ u ''.fileids'') = u ''blank.fileids''"
    by (simp_all add: blank_name target_def u_def)
  have o: "\<not> open_raises os_ok (u ''blank.transcription'')" "\<not> open_raises os_ok (u ''blank.fileids'')"
    by (simp_all add: os_ok_def)
  have n: "nodes world0 (u ''blank.transcription'') \<noteq> Some Dir"
    "nodes world0 (u ''blank.fileids'') \<noteq> Some Dir"
    by (simp_all add: world0_def u_def)
  have ne: "u ''blank.transcription'' \<noteq> u ''blank.fileids''" by (simp add: u_def)
  note G = blank_and_comment_lines_ignored
    [where f = blank_file and body = blank_text and os = os_ok and out_dir = None and v = world0]
  from G t g o n have c: "snd (generate_files os_ok blank_file None world0) = None
        \<and> nodes (fst (generate_files os_ok blank_file None world0)) =
            (nodes world0)(u ''blank.transcription'' \<mapsto> File [], u ''blank.fileids'' \<mapsto> File [])
        \<and> printed (fst (generate_files os_ok blank_file None world0)) = printed world0"
    unfolding p by blast
  then have d: "nodes (fst (generate_files os_ok blank_file None world0)) (u ''blank.transcription'') = Some (File [])"
    "nodes (fst (generate_files os_ok blank_file None world0)) (u ''blank.fileids'') = Some (File [])"
    "printed (fst (generate_files os_ok blank_file None world0)) = []"
    using ne by (simp_all add: world0_def)
  from i a h b t c d show ?thesis by blast
qed

text \<open>
  Claim C8 as it was stated fails: a path that does not exist and cannot be created is
  not created, and the script exits with status 1.
\<close>

theorem missing_directory_not_created:
  "nodes world0 (u ''out'') = None \<and> mkdir_raises os_no_mkdir (u ''out'')
   \<and> main os_no_mkdir demo_file (Some (u ''out'')) world0
       = (world0\<lparr>printed := [Usage, FailedToCreate (u ''out'')]\<rparr>, Some 1)
   \<and> nodes (fst (main os_no_mkdir demo_file (Some (u ''out'')) world0)) (u ''out'') = None"
  by (simp add: main_def directory_def print_err_def world0_def os_no_mkdir_def os_ok_def u_def)

text \<open>
  Claim C8 as the code has it. For an output directory that exists and is not a directory
  the script prints its usage and a message and exits with status 1, and so it does for
  one that does not exist and that \<open>os.mkdir\<close> cannot create; in both cases nothing is
  created. A path that does not exist and can be created becomes a directory, and then,
  as for a directory that exists, \<open>generate_files\<close> runs with it. Without a directory, or
  with an empty one, \<open>generate_files\<close> runs for the working directory. \<open>generate_files\<close>
  opens \<open>name.transcription\<close> and \<open>name.fileids\<close> under the directory, or by their bare
  names without one, and when they open and the input is read and written they are
  files when it ends.
\<close>

theorem out_dir_checked_before_output:
  "(path \<noteq> [] \<and> (\<exists>c. nodes w path = Some (File c)) \<longrightarrow>
      main os f (Some path) w = (print_err (NotADirectory path) (print_err Usage w), Some 1))
   \<and> (path \<noteq> [] \<and> nodes w path = None \<and> mkdir_raises os path \<longrightarrow>
      main os f (Some path) w = (print_err (FailedToCreate path) (print_err Usage w), Some 1))
   \<and> nodes (print_err m (print_err Usage w)) = nodes w
   \<and> (path \<noteq> [] \<and> nodes w path = None \<and> \<not> mkdir_raises os path \<longrightarrow>
      main os f (Some path) w = generate_files os f (Some path) (w\<lparr>nodes := (nodes w)(path \<mapsto> Dir)\<rparr>))
   \<and> (path \<noteq> [] \<and> nodes w path = Some Dir \<longrightarrow>
      main os f (Some path) w = generate_files os f (Some path) w)
   \<and> main os f (Some []) w = generate_files os f None w
   \<and> main os f None w = generate_files os f None w
   \<and> (path \<noteq> [] \<longrightarrow>
        target (Some path) (transcription_name f @ u ''.transcription'') =
          (if last path = 47 then path @ transcription_name f @ u ''.transcription''
           else path @ [47] @ transcription_name f @ u ''.transcription'')
        \<and> target (Some path) (transcription_name f @ u ''.fileids'') =
          (if last path = 47 then path @ transcription_name f @ u ''.fileids''
           else path @ [47] @ transcription_name f @ u ''.fileids''))
   \<and> target None (transcription_name f @ u ''.transcription'') = transcription_name f @ u ''.transcription''
   \<and> target None (transcription_name f @ u ''.fileids'') = transcription_name f @ u ''.fileids''
   \<and> (in_text f = Some body
        \<and> \<not> open_raises os (target out_dir (transcription_name f @ u ''.transcription''))
        \<and> \<not> open_raises os (target out_dir (transcription_name f @ u ''.fileids''))
        \<and> nodes v (target out_dir (transcription_name f @ u ''.transcription'')) \<noteq> Some Dir
        \<and> nodes v (target out_dir (transcription_name f @ u ''.fileids'')) \<noteq> Some Dir
        \<and> (\<forall>s. \<not> write_raises os (target out_dir (transcription_name f @ u ''.transcription'')) s)
        \<and> (\<forall>s. \<not> write_raises os (target out_dir (transcription_name f @ u ''.fileids'')) s) \<longrightarrow>
        snd (generate_files os f out_dir v) = None
        \<and> (\<exists>c. nodes (fst (generate_files os f out_dir v))
                  (target out_dir (transcription_name f @ u ''.transcription'')) = Some (File c))
        \<and> (\<exists>c. nodes (fst (generate_files os f out_dir v))
                  (target out_dir (transcription_name f @ u ''.fileids'')) = Some (File c))
        \<and> (\<forall>p. p \<noteq> target out_dir (transcription_name f @ u ''.transcription'')
               \<and> p \<noteq> target out_dir (transcription_name f @ u ''.fileids'') \<longrightarrow>
               nodes (fst (generate_files os f out_dir v)) p = nodes v p))"
proof -
  note M = main_cases [of path w os f]
  have 3: "nodes (print_err m (print_err Usage w)) = nodes w" by (simp add: print_err_def)
  have h: "u ''.transcription'' \<noteq> []" "hd (u ''.transcription'') \<noteq> 47"
    "u ''.fileids'' \<noteq> []" "hd (u ''.fileids'') \<noteq> 47"
    by (simp_all add: u_def)
  have 8: "target (Some path) (transcription_name f @ u ''.transcription'') =
          (if last path = 47 then path @ transcription_name f @ u ''.transcription''
           else path @ [47] @ transcription_name f @ u ''.transcription'')
        \<and> target (Some path) (transcription_name f @ u ''.fileids'') =
          (if last path = 47 then path @ transcription_name f @ u ''.fileids''
           else path @ [47] @ transcription_name f @ u ''.fileids'')"
    if "path \<noteq> []"
    using target_in_dir [OF that h(1,2)] target_in_dir [OF that h(3,4)] by blast
  have 9: "target None (transcription_name f @ u ''.transcription'') = transcription_name f @ u ''.transcription''"
    "target None (transcription_name f @ u ''.fileids'') = transcription_name f @ u ''.fileids''"
    by (simp_all add: target_def)
  have 10: "snd (generate_files os f out_dir v) = None
        \<and> (\<exists>c. nodes (fst (generate_files os f out_dir v))
                  (target out_dir (transcription_name f @ u ''.transcription'')) = Some (File c))
        \<and> (\<exists>c. nodes (fst (generate_files os f out_dir v))
                  (target out_dir (transcription_name f @ u ''.fileids'')) = Some (File c))
        \<and> (\<forall>p. p \<noteq> target out_dir (transcription_name f @ u ''.transcription'')
               \<and> p \<noteq> target out_dir (transcription_name f @ u ''.fileids'') \<longrightarrow>
               nodes (fst (generate_files os f out_dir v)) p = nodes v p)"
    if a: "in_text f = Some body
        \<and> \<not> open_raises os (target out_dir (transcription_name f @ u ''.transcription''))
        \<and> \<not> open_raises os (target out_dir (transcription_name f @ u ''.fileids''))
        \<and> nodes v (target out_dir (transcription_name f @ u ''.transcription'')) \<noteq> Some Dir
        \<and> nodes v (target out_dir (transcription_name f @ u ''.fileids'')) \<noteq> Some Dir
        \<and> (\<forall>s. \<not> write_raises os (target out_dir (transcription_name f @ u ''.transcription'')) s)
        \<and> (\<forall>s. \<not> write_raises os (target out_dir (transcription_name f @ u ''.fileids'')) s)"
  proof -
    have G: "snd (generate_files os f out_dir v) = None
      \<and> nodes (fst (generate_files os f out_dir v)) =
        (nodes v)
          (target out_dir (transcription_name f @ u ''.transcription'') \<mapsto>
             File (spec_transcription (transcription_name f) 1
                          (filter (\<lambda>l. \<not> spec_ignored l) (readlines body))),
           target out_dir (transcription_name f @ u ''.fileids'') \<mapsto>
             File (spec_fileids (transcription_name f) 1
                          (filter (\<lambda>l. \<not> spec_ignored l) (readlines body))))
      \<and> printed (fst (generate_files os f out_dir v)) = printed v"
      using a by (intro generate_files_ok [OF _ refl refl]) blast+
    have d: "target out_dir (transcription_name f @ u ''.transcription'')
        \<noteq> target out_dir (transcription_name f @ u ''.fileids'')"
      by (rule target_distinct)
    from G d show ?thesis by simp
  qed
  from M 3 8 9 10 show ?thesis by blast
qed

text \<open>The theorem of claim C8 for \<open>--out-dir out\<close>, when \<open>out\<close> is a regular file and
  when it does not exist.\<close>

theorem out_dir_checked_before_output_witness:
  "u ''out'' \<noteq> [] \<and> nodes world_file (u ''out'') = Some (File (u ''x''))
   \<and> main os_ok demo_file (Some (u ''out'')) world_file
       = (print_err (NotADirectory (u ''out'')) (print_err Usage world_file), Some 1)
   \<and> nodes (fst (main os_ok demo_file (Some (u ''out'')) world_file)) = nodes world_file
   \<and> nodes world0 (u ''out'') = None \<and> \<not> mkdir_raises os_ok (u ''out'')
   \<and> main os_ok demo_file (Some (u ''out'')) world0
       = generate_files os_ok demo_file (Some (u ''out'')) world_dir
   \<and> target (Some (u ''out'')) (transcription_name demo_file @ u ''.transcription'')
       = u ''out/demo.transcription''
   \<and> target (Some (u ''out'')) (transcription_name demo_file @ u ''.fileids'')
       = u ''out/demo.fileids''
   \<and> snd (main os_ok demo_file (Some (u ''out'')) world0) = None
   \<and> nodes (fst (main os_ok demo_file (Some (u ''out'')) world0)) (u ''out'') = Some Dir
   \<and> nodes (fst (main os_ok demo_file (Some (u ''out'')) world0)) (u ''out/demo.transcription'') \<noteq> None
   \<and> nodes (fst (main os_ok demo_file (Some (u ''out'')) world0)) (u ''out/demo.transcription'') \<noteq> Some Dir
   \<and> nodes (fst (main os_ok demo_file (Some (u ''out'')) world0)) (u ''out/demo.fileids'') \<noteq> None
   \<and> nodes (fst (main os_ok demo_file (Some (u ''out'')) world0)) (u ''out/demo.fileids'') \<noteq> Some Dir"
proof -
  have ne: "u ''out'' \<noteq> []" by (simp add: u_def)
  have f: "nodes world_file (u ''out'') = Some (File (u ''x''))" by (simp add: world_file_def)
  note A = out_dir_checked_before_output
    [where path = "u ''out''" and w = world_file and os = os_ok and f = demo_file
       and m = "NotADirectory (u ''out'')"]
  from A ne f have a1: "main os_ok demo_file (Some (u ''out'')) world_file
       = (print_err (NotADirectory (u ''out'')) (print_err Usage world_file), Some 1)" by blast
  from A have "nodes (print_err (NotADirectory (u ''out'')) (print_err Usage world_file)) = nodes world_file"
    by blast
  with a1 have a2: "nodes (fst (main os_ok demo_file (Some (u ''out'')) world_file)) = nodes world_file"
    by simp
  have n: "nodes world0 (u ''out'') = None" "\<not> mkdir_raises os_ok (u ''out'')"
    by (simp_all add: world0_def os_ok_def u_def)
  have wd: "world0\<lparr>nodes := (nodes world0)(u ''out'' \<mapsto> Dir)\<rparr> = world_dir"
    by (simp add: world_dir_def)
  have t: "in_text demo_file = Some demo_text" by (simp add: demo_file_def)
  have l: "last (u ''out'') \<noteq> 47" by (simp add: u_def)
  note B = out_dir_checked_before_output
    [where path = "u ''out''" and w = world0 and os = os_ok and f = demo_file
       and out_dir = "Some (u ''out'')" and v = world_dir and body = demo_text]
  from B ne n have b1: "main os_ok demo_file (Some (u ''out'')) world0
       = generate_files os_ok demo_file (Some (u ''out'')) world_dir"
    unfolding wd by blast
  from B ne l have p: "target (Some (u ''out'')) (transcription_name demo_file @ u ''.transcription'')
       = u ''out/demo.transcription''"
    "target (Some (u ''out'')) (transcription_name demo_file @ u ''.fileids'') = u ''out/demo.fileids''"
    by (simp_all add: demo_name) (simp_all add: u_def)
  have o: "\<not> open_raises os_ok (u ''out/demo.transcription'')"
    "\<not> open_raises os_ok (u ''out/demo.fileids'')"
    "\<forall>s. \<not> write_raises os_ok (u ''out/demo.transcription'') s"
    "\<forall>s. \<not> write_raises os_ok (u ''out/demo.fileids'') s"
    by (simp_all add: os_ok_def)
  have d: "nodes world_dir (u ''out/demo.transcription'') \<noteq> Some Dir"
    "nodes world_dir (u ''out/demo.fileids'') \<noteq> Some Dir"
    "nodes world_dir (u ''out'') = Some Dir"
    "u ''out'' \<noteq> u ''out/demo.transcription''" "u ''out'' \<noteq> u ''out/demo.fileids''"
    by (simp_all add: world_dir_def world0_def u_def)
  from B t o d(1,2) have c: "snd (generate_files os_ok demo_file (Some (u ''out'')) world_dir) = None
    \<and> (\<exists>c. nodes (fst (generate_files os_ok demo_file (Some (u ''out'')) world_dir))
              (u ''out/demo.transcription'') = Some (File c))
    \<and> (\<exists>c. nodes (fst (generate_files os_ok demo_file (Some (u ''out'')) world_dir))
              (u ''out/demo.fileids'') = Some (File c))
    \<and> (\<forall>p. p \<noteq> u ''out/demo.transcription'' \<and> p \<noteq> u ''out/demo.fileids'' \<longrightarrow>
           nodes (fst (generate_files os_ok demo_file (Some (u ''out'')) world_dir)) p = nodes world_dir p)"
    unfolding p by blast
  then have e: "nodes (fst (generate_files os_ok demo_file (Some (u ''out'')) world_dir)) (u ''out'') = Some Dir"
    using d(3,4,5) by simp
  from c have g: "nodes (fst (generate_files os_ok demo_file (Some (u ''out'')) world_dir)) (u ''out/demo.transcription'') \<noteq> None"
    "nodes (fst (generate_files os_ok demo_file (Some (u ''out'')) world_dir)) (u ''out/demo.transcription'') \<noteq> Some Dir"
    "nodes (fst (generate_files os_ok demo_file (Some (u ''out'')) world_dir)) (u ''out/demo.fileids'') \<noteq> None"
    "nodes (fst (generate_files os_ok demo_file (Some (u ''out'')) world_dir)) (u ''out/demo.fileids'') \<noteq> Some Dir"
    by auto
  from c have s: "snd (generate_files os_ok demo_file (Some (u ''out'')) world_dir) = None" by blast
  from ne f a1 a2 n b1 p s e g show ?thesis unfolding b1 by simp
qed

end
